theory Spec2Isabelle
  imports Main "HOL-Library.Word" "HOL-Library.Monad_Syntax" "HOL-Library.Sublist"
begin

section \<open>Bytes, big-endian integers and the RLP codec\<close>

text \<open>
  The relay client (\<^verbatim>\<open>testimonium/client.go\<close>) works on Go byte slices. A byte is an
  8-bit word, a byte slice or a fixed-size byte array is a list of bytes (a nil slice and
  an empty slice are both the empty list; the size of an array is a validity condition).
  Go's \<^verbatim>\<open>uint64\<close> is a 64-bit word, \<^verbatim>\<open>*big.Int\<close> is an unbounded integer.
\<close>

type_synonym byte = "8 word"
type_synonym bytes = "byte list"
type_synonym uint64 = "64 word"

text \<open>
  Errors as values. \<open>Returned e\<close> is a Go \<^verbatim>\<open>error\<close> result, \<open>Fatal e\<close> is
  \<^verbatim>\<open>log.Fatal\<close> (the process exits), \<open>Panic\<close> is a run-time panic (slice or index out
  of range). \<open>ClientError n\<close> stands for any error a remote collaborator reports.
\<close>

datatype error =
    ClientError nat
  | TxPending
  | SignatureMismatch
  | NoSubmitEvent
  | MalformedHeader
  | NegativeBigInt
  | ChainDoesNotExist
  | NoEventFound

datatype fault = Returned error | Fatal error | Panic

text \<open>
  Modelled from the spec: the RLP codec of go-ethereum's \<^verbatim>\<open>rlp\<close> package, which the
  repository imports and does not contain. The spec (4.1): integers are minimal
  big-endian byte strings, byte strings are length-prefixed, the whole list is
  length-prefixed. \<open>be_enc\<close> is the minimal big-endian form of a natural number (no
  leading zero byte, zero is the empty string) and \<open>be_dec\<close> reads a big-endian string,
  as \<^verbatim>\<open>big.Int.SetBytes\<close> does.
\<close>

fun be_enc :: "nat \<Rightarrow> bytes" where
  "be_enc n = (if n = 0 then [] else be_enc (n div 256) @ [of_nat (n mod 256)])"

declare be_enc.simps [simp del]

definition be_dec :: "bytes \<Rightarrow> nat" where
  "be_dec bs = foldl (\<lambda>a b. a * 256 + unat b) 0 bs"

text \<open>
  Modelled from the spec: the length prefix of an RLP item. A payload shorter than 56
  bytes has the one-byte prefix \<open>off + length\<close>; a longer one has the prefix
  \<open>off + 55 + k\<close> followed by the \<open>k\<close> bytes of its length, big-endian.
\<close>

definition rlp_prefix :: "nat \<Rightarrow> nat \<Rightarrow> bytes" where
  "rlp_prefix off n =
     (if n < 56 then [of_nat (off + n)]
      else of_nat (off + 55 + length (be_enc n)) # be_enc n)"

text \<open>
  Modelled from the spec: a byte string. A single byte below \<open>0x80\<close> is its own
  encoding; every other string follows its length prefix (offset \<open>0x80\<close>).
\<close>

definition rlp_string :: "bytes \<Rightarrow> bytes" where
  "rlp_string bs =
     (case bs of
        [b] \<Rightarrow> if b < 0x80 then [b] else rlp_prefix 0x80 1 @ [b]
      | _ \<Rightarrow> rlp_prefix 0x80 (length bs) @ bs)"

text \<open>Modelled from the spec: a list is its payload after a length prefix (offset \<open>0xc0\<close>).\<close>

definition rlp_list :: "bytes \<Rightarrow> bytes" where
  "rlp_list payload = rlp_prefix 0xc0 (length payload) @ payload"

text \<open>
  The Go values that the client hands to \<^verbatim>\<open>rlp.Encode\<close> inside a
  \<^verbatim>\<open>[]interface{}\<close>: fixed-size byte arrays (hashes, the address, the bloom filter, the
  block nonce), byte slices, \<^verbatim>\<open>*big.Int\<close> and \<^verbatim>\<open>uint64\<close>.
\<close>

datatype go_value =
    ByteArray bytes
  | ByteSlice bytes
  | BigInt int
  | Uint64 uint64

text \<open>
  Modelled from the spec: \<^verbatim>\<open>rlp.Encode\<close> on one value. An integer is the string of its
  minimal big-endian bytes; a negative \<^verbatim>\<open>*big.Int\<close> cannot be encoded and is an error.
\<close>

fun rlp_value :: "go_value \<Rightarrow> error + bytes" where
  "rlp_value (ByteArray bs) = Inr (rlp_string bs)"
| "rlp_value (ByteSlice bs) = Inr (rlp_string bs)"
| "rlp_value (BigInt i) =
     (if i < 0 then Inl NegativeBigInt else Inr (rlp_string (be_enc (nat i))))"
| "rlp_value (Uint64 w) = Inr (rlp_string (be_enc (unat w)))"

text \<open>The items of a list, encoded in order; the first error aborts the encoding.\<close>

fun rlp_items :: "go_value list \<Rightarrow> error + bytes" where
  "rlp_items [] = Inr []"
| "rlp_items (v # vs) =
     (case rlp_value v of
        Inl e \<Rightarrow> Inl e
      | Inr b \<Rightarrow> (case rlp_items vs of Inl e \<Rightarrow> Inl e | Inr r \<Rightarrow> Inr (b @ r)))"

text \<open>Modelled from the spec: \<^verbatim>\<open>rlp.Encode\<close> on a \<^verbatim>\<open>[]interface{}\<close>.\<close>

definition rlp_Encode :: "go_value list \<Rightarrow> error + bytes" where
  "rlp_Encode vs = (case rlp_items vs of Inl e \<Rightarrow> Inl e | Inr p \<Rightarrow> Inr (rlp_list p))"

section \<open>The header codec\<close>

text \<open>
  \<^verbatim>\<open>types.Header\<close> of go-ethereum, as the client reads its fields: five hashes and the
  mix digest are \<^verbatim>\<open>[32]byte\<close>, the coinbase is \<^verbatim>\<open>[20]byte\<close>, the bloom filter
  \<^verbatim>\<open>[256]byte\<close>, the nonce \<^verbatim>\<open>[8]byte\<close>; difficulty and number are \<^verbatim>\<open>*big.Int\<close>;
  gas limit, gas used and time are \<^verbatim>\<open>uint64\<close>; the extra data is a byte slice.
\<close>

record Header =
  ParentHash :: bytes
  UncleHash :: bytes
  Coinbase :: bytes
  Root :: bytes
  TxHash :: bytes
  ReceiptHash :: bytes
  Bloom :: bytes
  Difficulty :: int
  Number :: int
  GasLimit :: uint64
  GasUsed :: uint64
  Time :: uint64
  Extra :: bytes
  MixDigest :: bytes
  Nonce :: bytes

text \<open>\<^verbatim>\<open>encodeHeaderToRLP\<close>: the fifteen fields, in this order.\<close>

definition encodeHeaderToRLP :: "Header \<Rightarrow> error + bytes" where
  "encodeHeaderToRLP header = rlp_Encode
     [ByteArray (ParentHash header),
      ByteArray (UncleHash header),
      ByteArray (Coinbase header),
      ByteArray (Root header),
      ByteArray (TxHash header),
      ByteArray (ReceiptHash header),
      ByteArray (Bloom header),
      BigInt (Difficulty header),
      BigInt (Number header),
      Uint64 (GasLimit header),
      Uint64 (GasUsed header),
      Uint64 (Time header),
      ByteSlice (Extra header),
      ByteArray (MixDigest header),
      ByteArray (Nonce header)]"

text \<open>\<^verbatim>\<open>encodeHeaderWithoutNonceToRLP\<close>: thirteen fields.\<close>

definition encodeHeaderWithoutNonceToRLP :: "Header \<Rightarrow> error + bytes" where
  "encodeHeaderWithoutNonceToRLP header = rlp_Encode
     [ByteArray (ParentHash header),
      ByteArray (UncleHash header),
      ByteArray (Coinbase header),
      ByteArray (Root header),
      ByteArray (TxHash header),
      ByteArray (ReceiptHash header),
      ByteArray (Bloom header),
      BigInt (Difficulty header),
      BigInt (Number header),
      Uint64 (GasLimit header),
      Uint64 (GasUsed header),
      Uint64 (Time header),
      ByteSlice (Extra header)]"

text \<open>
  Modelled from the spec: the RLP decoder of go-ethereum's \<^verbatim>\<open>rlp\<close> package
  (\<^verbatim>\<open>rlp.DecodeBytes\<close> into a \<^verbatim>\<open>types.Header\<close>), which the repository does not contain.
  The spec (4.1): decoding is the exact inverse of the full encoding and fails with
  \<open>MalformedHeader\<close> when the structure of the byte stream does not match the expected
  field count or types. \<open>rlp_split\<close> reads one item from the front of the input: its
  kind, its content and the bytes after it. Sizes are canonical: a long-form length has
  no leading zero byte and is at least 56.
\<close>

datatype rlp_kind = KByte | KString | KList

definition rlp_take :: "rlp_kind \<Rightarrow> nat \<Rightarrow> bytes \<Rightarrow> (rlp_kind \<times> bytes \<times> bytes) option" where
  "rlp_take k n r = (if length r < n then None else Some (k, take n r, drop n r))"

definition rlp_long :: "rlp_kind \<Rightarrow> nat \<Rightarrow> bytes \<Rightarrow> (rlp_kind \<times> bytes \<times> bytes) option" where
  "rlp_long k ll r =
     (if length r < ll then None
      else let lb = take ll r; n = be_dec lb
           in if hd lb = 0 \<or> n < 56 then None else rlp_take k n (drop ll r))"

definition rlp_split :: "bytes \<Rightarrow> (rlp_kind \<times> bytes \<times> bytes) option" where
  "rlp_split bs =
     (case bs of
        [] \<Rightarrow> None
      | b # r \<Rightarrow>
          let t = unat b in
          if t < 0x80 then Some (KByte, [b], r)
          else if t < 0xb8 then rlp_take KString (t - 0x80) r
          else if t < 0xc0 then rlp_long KString (t - 0xb7) r
          else if t < 0xf8 then rlp_take KList (t - 0xc0) r
          else rlp_long KList (t - 0xf7) r)"

text \<open>
  Modelled from the spec: the decoders of the field types. Each reads one item from the
  front of the input and returns the value with the remaining input. A string item of
  one byte below \<open>0x80\<close> is not canonical; an integer has no leading zero byte; a
  \<^verbatim>\<open>uint64\<close> has at most eight bytes; a byte array has exactly its size.
\<close>

definition dec_bytes :: "bytes \<Rightarrow> (bytes \<times> bytes) option" where
  "dec_bytes bs =
     (case rlp_split bs of
        Some (KByte, c, r) \<Rightarrow> Some (c, r)
      | Some (KString, c, r) \<Rightarrow> if length c = 1 \<and> hd c < 0x80 then None else Some (c, r)
      | _ \<Rightarrow> None)"

definition dec_array :: "nat \<Rightarrow> bytes \<Rightarrow> (bytes \<times> bytes) option" where
  "dec_array n bs =
     (case dec_bytes bs of
        Some (c, r) \<Rightarrow> if length c = n then Some (c, r) else None
      | None \<Rightarrow> None)"

definition dec_bigint :: "bytes \<Rightarrow> (int \<times> bytes) option" where
  "dec_bigint bs =
     (case dec_bytes bs of
        Some (c, r) \<Rightarrow> if c \<noteq> [] \<and> hd c = 0 then None else Some (int (be_dec c), r)
      | None \<Rightarrow> None)"

definition dec_uint64 :: "bytes \<Rightarrow> (uint64 \<times> bytes) option" where
  "dec_uint64 bs =
     (case dec_bytes bs of
        Some (c, r) \<Rightarrow>
          if 8 < length c \<or> (c \<noteq> [] \<and> hd c = 0) then None else Some (of_nat (be_dec c), r)
      | None \<Rightarrow> None)"

text \<open>The fifteen fields of a header, read in order from the payload of the list.\<close>

definition dec_header_fields :: "bytes \<Rightarrow> (Header \<times> bytes) option" where
  "dec_header_fields c0 = do {
     (parentHash, c1) \<leftarrow> dec_array 32 c0;
     (uncleHash, c2) \<leftarrow> dec_array 32 c1;
     (coinbase, c3) \<leftarrow> dec_array 20 c2;
     (root, c4) \<leftarrow> dec_array 32 c3;
     (txHash, c5) \<leftarrow> dec_array 32 c4;
     (receiptHash, c6) \<leftarrow> dec_array 32 c5;
     (bloom, c7) \<leftarrow> dec_array 256 c6;
     (difficulty, c8) \<leftarrow> dec_bigint c7;
     (number, c9) \<leftarrow> dec_bigint c8;
     (gasLimit, c10) \<leftarrow> dec_uint64 c9;
     (gasUsed, c11) \<leftarrow> dec_uint64 c10;
     (time, c12) \<leftarrow> dec_uint64 c11;
     (extra, c13) \<leftarrow> dec_bytes c12;
     (mixDigest, c14) \<leftarrow> dec_array 32 c13;
     (nonce, c15) \<leftarrow> dec_array 8 c14;
     Some (\<lparr>ParentHash = parentHash, UncleHash = uncleHash, Coinbase = coinbase,
            Root = root, TxHash = txHash, ReceiptHash = receiptHash, Bloom = bloom,
            Difficulty = difficulty, Number = number, GasLimit = gasLimit,
            GasUsed = gasUsed, Time = time, Extra = extra, MixDigest = mixDigest,
            Nonce = nonce\<rparr>, c15)
   }"

text \<open>
  \<^verbatim>\<open>decodeHeaderFromRLP\<close>: \<^verbatim>\<open>rlp.DecodeBytes(bytes, header)\<close>. The input is one list
  with nothing after it, and the list holds exactly the fifteen fields.
\<close>

definition decodeHeaderFromRLP :: "bytes \<Rightarrow> error + Header" where
  "decodeHeaderFromRLP bs =
     (case rlp_split bs of
        Some (KList, c, []) \<Rightarrow>
          (case dec_header_fields c of
             Some (header, []) \<Rightarrow> Inr header
           | _ \<Rightarrow> Inl MalformedHeader)
      | _ \<Rightarrow> Inl MalformedHeader)"

text \<open>
  A valid header: every fixed-size field has its size, the two big integers are not
  negative, and the variable-size fields are small enough for the encoding to fit a Go
  byte slice (the bounds are generous: Ethereum's own are 32 bytes of extra data and
  256-bit integers).
\<close>

definition valid_header :: "Header \<Rightarrow> bool" where
  "valid_header h \<longleftrightarrow>
     length (ParentHash h) = 32 \<and> length (UncleHash h) = 32 \<and> length (Coinbase h) = 20 \<and>
     length (Root h) = 32 \<and> length (TxHash h) = 32 \<and> length (ReceiptHash h) = 32 \<and>
     length (Bloom h) = 256 \<and> length (MixDigest h) = 32 \<and> length (Nonce h) = 8 \<and>
     0 \<le> Difficulty h \<and> Difficulty h < 2 ^ 256 \<and>
     0 \<le> Number h \<and> Number h < 2 ^ 256 \<and>
     length (Extra h) < 2 ^ 32"

section \<open>Collaborators: the chain client and the contracts\<close>

text \<open>
  What the client reads from a chain. \<^verbatim>\<open>types.Transaction\<close> is its hash
  (\<^verbatim>\<open>tx.Hash()\<close>), its call data (\<^verbatim>\<open>tx.Data()\<close>) and its canonical encoding
  (\<^verbatim>\<open>txList.GetRlp(i)\<close>); \<^verbatim>\<open>types.Receipt\<close> is the fields the client reads and its
  canonical encoding (\<^verbatim>\<open>receipt.EncodeRLP\<close>). Go's \<^verbatim>\<open>uint\<close> is 64 bits wide.
\<close>

record Transaction =
  tx_Hash :: bytes
  tx_Data :: bytes
  tx_Rlp :: bytes

record Receipt =
  rc_TxHash :: bytes
  rc_BlockHash :: bytes
  rc_TransactionIndex :: uint64
  rc_Status :: uint64
  rc_BlockNumber :: int
  rc_Rlp :: bytes

record Block =
  blk_Header :: Header
  blk_Transactions :: "Transaction list"

text \<open>A submit-header event of the contract: \<^verbatim>\<open>Event.Raw.Data\<close> and \<^verbatim>\<open>Event.Raw.TxHash\<close>.\<close>

record SubmitHeaderEvent =
  Raw_Data :: bytes
  Raw_TxHash :: bytes

text \<open>The arguments of the contract methods the client sends as transactions.\<close>

record DisputeBlockHeaderCall =
  dispute_rlpHeader :: bytes
  dispute_rlpParent :: bytes
  dispute_dataSetLookUp :: "int list"
  dispute_witnessForLookup :: "int list"

record SetEpochDataCall =
  sed_epoch :: int
  sed_fullSizeIn128Resolution :: int
  sed_branchDepth :: int
  sed_nodes :: "int list"
  sed_start :: int
  sed_mnlen :: int

text \<open>
  A chain (\<^verbatim>\<open>Chain\<close>: the RPC client and the two contract bindings) is the answers of
  its remote procedures. \<open>FilterSubmitHeader\<close> is the events that the iterator delivers,
  in order, or the error of the filter call. \<open>awaitTxReceipt\<close> is the outcome of the
  client's wait for a receipt (a goroutine racing a timer, not modelled further).
  \<open>CallContract\<close> is the read-only re-execution of a transaction at a block.
\<close>

record Chain =
  FilterSubmitHeader :: "error + SubmitHeaderEvent list"
  TransactionByHash :: "bytes \<Rightarrow> error + (Transaction \<times> bool)"
  TransactionReceipt :: "bytes \<Rightarrow> error + Receipt"
  BlockByHash :: "bytes \<Rightarrow> error + Block"
  PendingNonceAt :: "error + uint64"
  SuggestGasPrice :: "error + int"
  DisputeBlockHeader :: "DisputeBlockHeaderCall \<Rightarrow> error + Transaction"
  SetEpochDataTx :: "SetEpochDataCall \<Rightarrow> error + Transaction"
  awaitTxReceipt :: "bytes \<Rightarrow> error + Receipt"
  CallContract :: "Transaction \<Rightarrow> int \<Rightarrow> error + bytes"
  FilterRemoveBranch :: "nat \<Rightarrow> error + bytes list"
  FilterPoWValidationResult :: "nat \<Rightarrow> error + (nat \<times> nat) list"

text \<open>\<^verbatim>\<open>Client\<close>: the chains by their 8-bit identifier.\<close>

record Client =
  chains :: "8 word \<Rightarrow> Chain option"

text \<open>
  \<^verbatim>\<open>big.Int.Uint64\<close>: the low 64 bits of the absolute value. \<^verbatim>\<open>BlockNonce.Uint64\<close>: the
  eight bytes read big-endian.
\<close>

definition big_Uint64 :: "int \<Rightarrow> uint64" where
  "big_Uint64 x = of_nat (nat \<bar>x\<bar>)"

definition nonce_Uint64 :: "bytes \<Rightarrow> uint64" where
  "nonce_Uint64 n = of_nat (be_dec n)"

text \<open>
  A Go slice expression \<^verbatim>\<open>s[lo:hi]\<close> on a byte slice whose capacity is its length
  (\<^verbatim>\<open>tx.Data()\<close> returns a fresh copy): it panics unless \<open>lo \<le> hi \<le> len(s)\<close>.
\<close>

definition go_slice :: "bytes \<Rightarrow> nat \<Rightarrow> nat \<Rightarrow> fault + bytes" where
  "go_slice s lo hi =
     (if lo \<le> hi \<and> hi \<le> length s then Inr (take (hi - lo) (drop lo s)) else Inl Panic)"

section \<open>The event-replay locator\<close>

text \<open>The method selector of the submission function, \<^verbatim>\<open>common.Hex2Bytes("d5107381")\<close>.\<close>

definition submitSelector :: bytes where
  "submitSelector = [0xd5, 0x10, 0x73, 0x81]"

text \<open>
  The body of the \<^verbatim>\<open>if\<close> in \<^verbatim>\<open>getRlpHeaderByTestimoniumSubmitEvent\<close>, from
  \<^verbatim>\<open>txData := tx.Data()\<close> on. The offsets are \<^verbatim>\<open>uint64\<close>: \<^verbatim>\<open>position.Uint64()\<close> and
  \<^verbatim>\<open>length.Uint64()\<close> keep the low 64 bits of the 32-byte words, and the additions wrap.
\<close>

definition headerFromCalldata :: "bytes \<Rightarrow> fault + bytes" where
  "headerFromCalldata txData =
     (case go_slice txData 0 4 of
        Inl f \<Rightarrow> Inl f
      | Inr methodId \<Rightarrow>
          if methodId \<noteq> submitSelector then Inl (Returned SignatureMismatch)
          else
            (case go_slice txData 4 (4 + 32) of
               Inl f \<Rightarrow> Inl f
             | Inr positionBytes \<Rightarrow>
                 let position = (of_nat (be_dec positionBytes) :: uint64) in
                 (case go_slice txData (unat (4 + position)) (unat (4 + position + 32)) of
                    Inl f \<Rightarrow> Inl f
                  | Inr lengthBytes \<Rightarrow>
                      let len = (of_nat (be_dec lengthBytes) :: uint64) in
                      go_slice txData (unat (4 + position + 32))
                        (unat (4 + position + 32 + len)))))"

text \<open>The loop over the events: the first event whose data equals the block hash decides.\<close>

fun scanSubmitEvents :: "Chain \<Rightarrow> bytes \<Rightarrow> SubmitHeaderEvent list \<Rightarrow> fault + bytes" where
  "scanSubmitEvents chain blockHash [] = Inl (Returned NoSubmitEvent)"
| "scanSubmitEvents chain blockHash (ev # evs) =
     (if Raw_Data ev = blockHash then
        (case TransactionByHash chain (Raw_TxHash ev) of
           Inl e \<Rightarrow> Inl (Returned e)
         | Inr (tx, isPending) \<Rightarrow>
             if isPending then Inl (Returned TxPending)
             else headerFromCalldata (tx_Data tx))
      else scanSubmitEvents chain blockHash evs)"

definition getRlpHeaderByTestimoniumSubmitEvent :: "Chain \<Rightarrow> bytes \<Rightarrow> fault + bytes" where
  "getRlpHeaderByTestimoniumSubmitEvent chain blockHash =
     (case FilterSubmitHeader chain of
        Inl e \<Rightarrow> Inl (Returned e)
      | Inr events \<Rightarrow> scanSubmitEvents chain blockHash events)"

section \<open>Sending transactions\<close>

text \<open>\<^verbatim>\<open>prepareTransaction\<close>: the pending nonce and the suggested gas price, fresh per call.\<close>

record TransactOpts =
  auth_Nonce :: int
  auth_Value :: int
  auth_GasPrice :: int

definition prepareTransaction :: "Chain \<Rightarrow> int \<Rightarrow> fault + TransactOpts" where
  "prepareTransaction chain valueInWei =
     (case PendingNonceAt chain of
        Inl e \<Rightarrow> Inl (Fatal e)
      | Inr nonce \<Rightarrow>
          (case SuggestGasPrice chain of
             Inl e \<Rightarrow> Inl (Fatal e)
           | Inr gasPrice \<Rightarrow>
               Inr \<lparr>auth_Nonce = sint nonce, auth_Value = valueInWei, auth_GasPrice = gasPrice\<rparr>))"

text \<open>
  \<^verbatim>\<open>getFailureReason\<close>: \<^verbatim>\<open>fmt.Sprintf(string(code[67:]))\<close>, the bytes of the call's result
  from offset 67 on, taken as a format string without operands. The formatting is the
  Go library's (\<^verbatim>\<open>fmt\<close>), which the repository does not contain: \<open>Sprintf\<close> is a parameter
  of the model, here and in the functions that print the reason.
\<close>

definition getFailureReason ::
  "(bytes \<Rightarrow> bytes) \<Rightarrow> Chain \<Rightarrow> Transaction \<Rightarrow> int \<Rightarrow> fault + bytes" where
  "getFailureReason Sprintf chain tx blockNumber =
     (case CallContract chain tx blockNumber of
        Inl e \<Rightarrow> Inl (Fatal e)
      | Inr code \<Rightarrow>
          (case go_slice code 67 (length code) of
             Inl f \<Rightarrow> Inl f
           | Inr format \<Rightarrow> Inr (Sprintf format)))"

section \<open>Disputing a block\<close>

text \<open>
  The libraries \<^verbatim>\<open>DisputeBlock\<close> calls and the repository does not contain:
  \<^verbatim>\<open>crypto.Keccak256\<close> and the PoW-dataset collaborator \<^verbatim>\<open>ethash.NewBlockMetaData\<close> with
  its two arrays. They are parameters of the model.
\<close>

record 'm PoWLib =
  Keccak256 :: "bytes \<Rightarrow> bytes"
  NewBlockMetaData :: "uint64 \<Rightarrow> uint64 \<Rightarrow> bytes \<Rightarrow> 'm"
  DAGElementArray :: "'m \<Rightarrow> int list"
  DAGProofArray :: "'m \<Rightarrow> int list"

text \<open>\<^verbatim>\<open>copy(dst[:], src)\<close> into a zeroed \<^verbatim>\<open>[32]byte\<close>.\<close>

definition copy32 :: "bytes \<Rightarrow> bytes" where
  "copy32 src = take 32 src @ replicate (32 - length src) 0"

text \<open>
  What \<^verbatim>\<open>DisputeBlock\<close> does: it stops before the dispute transaction is sent
  (\<open>DisputeAborted\<close>), or it sends the transaction with these arguments and then waits
  for the receipt and reads the events (\<open>DisputeSent\<close>, with what follows the sending).
\<close>

datatype dispute_end =
    AfterFatal error
  | AfterPanic
  | TxFailed bytes
  | TxSuccessful "bytes list" "(nat \<times> nat) list"

datatype dispute_result =
    DisputeAborted fault
  | DisputeSent DisputeBlockHeaderCall dispute_end

text \<open>After the transaction is accepted: the receipt, its status, the two event filters.\<close>

definition afterDispute :: "(bytes \<Rightarrow> bytes) \<Rightarrow> Chain \<Rightarrow> Transaction \<Rightarrow> dispute_end" where
  "afterDispute Sprintf chain tx =
     (case awaitTxReceipt chain (tx_Hash tx) of
        Inl e \<Rightarrow> AfterFatal e
      | Inr receipt \<Rightarrow>
          if rc_Status receipt = 0 then
            (case getFailureReason Sprintf chain tx (rc_BlockNumber receipt) of
               Inl (Fatal e) \<Rightarrow> AfterFatal e
             | Inl (Returned e) \<Rightarrow> AfterFatal e
             | Inl Panic \<Rightarrow> AfterPanic
             | Inr reason \<Rightarrow> TxFailed reason)
          else
            (case FilterRemoveBranch chain (unat (big_Uint64 (rc_BlockNumber receipt))) of
               Inl e \<Rightarrow> AfterFatal e
             | Inr removed \<Rightarrow>
                 (case FilterPoWValidationResult chain
                         (unat (big_Uint64 (rc_BlockNumber receipt))) of
                    Inl e \<Rightarrow> AfterFatal e
                  | Inr results \<Rightarrow> TxSuccessful (take 1 removed) (take 1 results))))"

definition DisputeBlock ::
  "(bytes \<Rightarrow> bytes) \<Rightarrow> 'm PoWLib \<Rightarrow> Client \<Rightarrow> bytes \<Rightarrow> 8 word \<Rightarrow> dispute_result" where
  "DisputeBlock Sprintf lib c blockHash chain =
     (case chains c chain of
        None \<Rightarrow> DisputeAborted Panic
      | Some ch \<Rightarrow>
     (case getRlpHeaderByTestimoniumSubmitEvent ch blockHash of
        Inl Panic \<Rightarrow> DisputeAborted Panic
      | Inl (Fatal e) \<Rightarrow> DisputeAborted (Fatal e)
      | Inl (Returned e) \<Rightarrow> DisputeAborted (Fatal e)
      | Inr rlpEncodedBlockHeader \<Rightarrow>
     (case decodeHeaderFromRLP rlpEncodedBlockHeader of
        Inl e \<Rightarrow> DisputeAborted (Fatal e)
      | Inr blockHeader \<Rightarrow>
     (case encodeHeaderWithoutNonceToRLP blockHeader of
        Inl e \<Rightarrow> DisputeAborted (Fatal e)
      | Inr blockHeaderWithoutNonce \<Rightarrow>
          let blockHeaderHashWithoutNonce = Keccak256 lib blockHeaderWithoutNonce;
              blockHeaderHashWithoutNonceLength32 = copy32 blockHeaderHashWithoutNonce;
              blockMetaData = NewBlockMetaData lib (big_Uint64 (Number blockHeader))
                                (nonce_Uint64 (Nonce blockHeader))
                                blockHeaderHashWithoutNonceLength32;
              dataSetLookUp = DAGElementArray lib blockMetaData;
              witnessForLookup = DAGProofArray lib blockMetaData
          in
     (case getRlpHeaderByTestimoniumSubmitEvent ch (ParentHash blockHeader) of
        Inl Panic \<Rightarrow> DisputeAborted Panic
      | Inl (Fatal e) \<Rightarrow> DisputeAborted (Fatal e)
      | Inl (Returned e) \<Rightarrow> DisputeAborted (Fatal e)
      | Inr rlpEncodedParentBlockHeader \<Rightarrow>
     (case prepareTransaction ch 0 of
        Inl f \<Rightarrow> DisputeAborted f
      | Inr auth \<Rightarrow>
          let call = \<lparr>dispute_rlpHeader = rlpEncodedBlockHeader,
                      dispute_rlpParent = rlpEncodedParentBlockHeader,
                      dispute_dataSetLookUp = dataSetLookUp,
                      dispute_witnessForLookup = witnessForLookup\<rparr>
          in
     (case DisputeBlockHeader ch call of
        Inl e \<Rightarrow> DisputeAborted (Fatal e)
      | Inr tx \<Rightarrow> DisputeSent call (afterDispute Sprintf ch tx))))))))"

section \<open>Submitting epoch data\<close>

text \<open>
  \<^verbatim>\<open>typedefs.EpochData\<close> (its declaration is not among the sources; the fields are the
  ones \<^verbatim>\<open>SetEpochData\<close> reads, big integers throughout).
\<close>

record EpochData =
  Epoch :: int
  FullSizeIn128Resolution :: int
  BranchDepth :: int
  MerkleNodes :: "int list"

text \<open>How the loop of \<^verbatim>\<open>SetEpochData\<close> ends.\<close>

datatype epoch_end = EpochDone | EpochTxFailed bytes | EpochFault fault

text \<open>
  The loop of \<^verbatim>\<open>SetEpochData\<close> over \<^verbatim>\<open>epochData.MerkleNodes\<close>, one node per step:
  \<open>cnt\<close> is the number of nodes, \<open>k\<close> the index of the node at hand, \<open>nodes\<close> the batch
  collected so far and \<open>start\<close> the running offset. The result is the transactions
  sent, in order, and how the loop ended.
\<close>

fun epochLoop ::
  "(bytes \<Rightarrow> bytes) \<Rightarrow> Chain \<Rightarrow> EpochData \<Rightarrow> nat \<Rightarrow> nat \<Rightarrow> int list \<Rightarrow> int list \<Rightarrow> int \<Rightarrow>
     SetEpochDataCall list \<times> epoch_end" where
  "epochLoop Sprintf chain epochData cnt k [] nodes start = ([], EpochDone)"
| "epochLoop Sprintf chain epochData cnt k (n # rest) nodes0 start =
     (let nodes = nodes0 @ [n] in
      if length nodes = 40 \<or> int k = int cnt - 1 then
        let mnlen = int (length nodes) in
        if k < 440 \<and> big_Uint64 (Epoch epochData) = 128 then
          epochLoop Sprintf chain epochData cnt (Suc k) rest [] (start + mnlen)
        else
          (case prepareTransaction chain 0 of
             Inl f \<Rightarrow> ([], EpochFault f)
           | Inr auth \<Rightarrow>
               let call = \<lparr>sed_epoch = Epoch epochData,
                           sed_fullSizeIn128Resolution = FullSizeIn128Resolution epochData,
                           sed_branchDepth = BranchDepth epochData,
                           sed_nodes = nodes, sed_start = start, sed_mnlen = mnlen\<rparr>
               in
               (case SetEpochDataTx chain call of
                  Inl e \<Rightarrow> ([], EpochFault (Fatal e))
                | Inr tx \<Rightarrow>
                    (case awaitTxReceipt chain (tx_Hash tx) of
                       Inl e \<Rightarrow> ([call], EpochFault (Fatal e))
                     | Inr receipt \<Rightarrow>
                         if rc_Status receipt = 0 then
                           (case getFailureReason Sprintf chain tx (rc_BlockNumber receipt) of
                              Inl f \<Rightarrow> ([call], EpochFault f)
                            | Inr reason \<Rightarrow> ([call], EpochTxFailed reason))
                         else
                           (case epochLoop Sprintf chain epochData cnt (Suc k) rest []
                                   (start + mnlen) of
                              (sent, e) \<Rightarrow> (call # sent, e)))))
      else epochLoop Sprintf chain epochData cnt (Suc k) rest nodes start)"

definition SetEpochData ::
  "(bytes \<Rightarrow> bytes) \<Rightarrow> Client \<Rightarrow> EpochData \<Rightarrow> 8 word \<Rightarrow> SetEpochDataCall list \<times> epoch_end" where
  "SetEpochData Sprintf c epochData chain =
     (case chains c chain of
        None \<Rightarrow> ([], EpochFault (Fatal ChainDoesNotExist))
      | Some ch \<Rightarrow>
          epochLoop Sprintf ch epochData (length (MerkleNodes epochData)) 0 (MerkleNodes epochData) [] 0)"

section \<open>The Merkle proof builder\<close>

text \<open>
  The trie library (\<^verbatim>\<open>trie.Trie\<close> of go-ethereum), which the repository imports and does
  not contain, is a parameter of the model: the empty trie of \<^verbatim>\<open>new(trie.Trie)\<close>,
  \<^verbatim>\<open>Update\<close>, the root hash \<^verbatim>\<open>Hash\<close>, and \<^verbatim>\<open>NodeIterator\<close> as the positions that
  successive calls of \<^verbatim>\<open>Next(true)\<close> visit. At a position \<^verbatim>\<open>Leaf()\<close> is false
  (\<open>InnerNode\<close>) or true (\<open>LeafNode\<close>, with \<^verbatim>\<open>LeafKey()\<close> and \<^verbatim>\<open>LeafProof()\<close>).
\<close>

datatype trie_pos = InnerNode | LeafNode bytes "bytes list"

record 't TrieLib =
  trie_new :: 't
  trie_Update :: "'t \<Rightarrow> bytes \<Rightarrow> bytes \<Rightarrow> 't"
  trie_Hash :: "'t \<Rightarrow> bytes"
  trie_NodeIterator :: "'t \<Rightarrow> trie_pos list"

text \<open>\<^verbatim>\<open>rlp.Encode\<close> on a \<^verbatim>\<open>uint\<close> (a trie key) and on a \<^verbatim>\<open>[][]byte\<close> (the proof nodes).\<close>

definition rlp_uint :: "uint64 \<Rightarrow> bytes" where
  "rlp_uint i = rlp_string (be_enc (unat i))"

definition rlp_byteslices :: "bytes list \<Rightarrow> bytes" where
  "rlp_byteslices xs = rlp_list (concat (map rlp_string xs))"

text \<open>
  \<^verbatim>\<open>rlp.Encode(buffer, block.Header())\<close>: the fifteen fields of the header in the order
  of \<^verbatim>\<open>encodeHeaderToRLP\<close>. The builders drop the error of the call; on an error
  nothing has been written to the buffer.
\<close>

definition rlp_Header :: "Header \<Rightarrow> bytes" where
  "rlp_Header h = (case encodeHeaderToRLP h of Inl e \<Rightarrow> [] | Inr b \<Rightarrow> b)"

text \<open>
  The loop after \<^verbatim>\<open>merkleTrie.NodeIterator(nil)\<close>: the proof of the first leaf whose key
  is the path; \<^verbatim>\<open>proofNodes\<close> stays nil (the empty list) when there is none.
\<close>

fun findLeafProof :: "trie_pos list \<Rightarrow> bytes \<Rightarrow> bytes list" where
  "findLeafProof [] path = []"
| "findLeafProof (InnerNode # ps) path = findLeafProof ps path"
| "findLeafProof (LeafNode k prf # ps) path =
     (if k = path then prf else findLeafProof ps path)"

text \<open>The transactions trie: key \<^verbatim>\<open>rlp(uint(i))\<close>, value \<^verbatim>\<open>txList.GetRlp(i)\<close>.\<close>

fun txTrie :: "'t TrieLib \<Rightarrow> nat \<Rightarrow> Transaction list \<Rightarrow> 't \<Rightarrow> 't" where
  "txTrie lib i [] t = t"
| "txTrie lib i (tx # txs) t =
     txTrie lib (Suc i) txs (trie_Update lib t (rlp_uint (of_nat i)) (tx_Rlp tx))"

text \<open>\<^verbatim>\<open>txList.GetRlp(int(index))\<close>: an index out of range panics.\<close>

definition GetRlp :: "Transaction list \<Rightarrow> int \<Rightarrow> fault + bytes" where
  "GetRlp txList i =
     (if 0 \<le> i \<and> i < int (length txList) then Inr (tx_Rlp (txList ! nat i)) else Inl Panic)"

definition GenerateMerkleProofForTx ::
  "'t TrieLib \<Rightarrow> Client \<Rightarrow> bytes \<Rightarrow> 8 word \<Rightarrow> fault + (bytes \<times> bytes \<times> bytes \<times> bytes)" where
  "GenerateMerkleProofForTx lib c txHash chain =
     (case chains c chain of
        None \<Rightarrow> Inl (Fatal ChainDoesNotExist)
      | Some ch \<Rightarrow>
     (case TransactionReceipt ch txHash of
        Inl e \<Rightarrow> Inl (Returned e)
      | Inr txReceipt \<Rightarrow>
     (case BlockByHash ch (rc_BlockHash txReceipt) of
        Inl e \<Rightarrow> Inl (Returned e)
      | Inr block \<Rightarrow>
          let txList = blk_Transactions block;
              merkleTrie = txTrie lib 0 txList (trie_new lib)
          in
     (case GetRlp txList (sint (rc_TransactionIndex txReceipt)) of
        Inl f \<Rightarrow> Inl f
      | Inr rlpEncodedTx \<Rightarrow>
          let path = rlp_uint (rc_TransactionIndex txReceipt);
              proofNodes = findLeafProof (trie_NodeIterator lib merkleTrie) path;
              rlpEncodedProofNodes = rlp_byteslices proofNodes;
              rlpEncodedHeader = rlp_Header (blk_Header block)
          in Inr (rlpEncodedHeader, rlpEncodedTx, path, rlpEncodedProofNodes)))))"

text \<open>
  The receipts trie: one receipt is fetched per transaction of the block; the path and
  the value are set when the fetched receipt has the transaction hash of the target's.
\<close>

fun receiptsTrie ::
  "'t TrieLib \<Rightarrow> Chain \<Rightarrow> Receipt \<Rightarrow> nat \<Rightarrow> Transaction list \<Rightarrow> 't \<times> bytes \<times> bytes \<Rightarrow>
     error + ('t \<times> bytes \<times> bytes)" where
  "receiptsTrie lib ch txReceipt i [] st = Inr st"
| "receiptsTrie lib ch txReceipt i (tx # txs) (merkleTrie, path, rlpEncodedReceipt) =
     (case TransactionReceipt ch (tx_Hash tx) of
        Inl e \<Rightarrow> Inl e
      | Inr receipt \<Rightarrow>
          let encodedReceipt = rc_Rlp receipt;
              key = rlp_uint (of_nat i);
              (path', rlpEncodedReceipt') =
                 (if rc_TxHash txReceipt = rc_TxHash receipt then (key, encodedReceipt)
                  else (path, rlpEncodedReceipt))
          in receiptsTrie lib ch txReceipt (Suc i) txs
               (trie_Update lib merkleTrie key encodedReceipt, path', rlpEncodedReceipt'))"

definition GenerateMerkleProofForReceipt ::
  "'t TrieLib \<Rightarrow> Client \<Rightarrow> bytes \<Rightarrow> 8 word \<Rightarrow> fault + (bytes \<times> bytes \<times> bytes \<times> bytes)" where
  "GenerateMerkleProofForReceipt lib c txHash chain =
     (case chains c chain of
        None \<Rightarrow> Inl (Fatal ChainDoesNotExist)
      | Some ch \<Rightarrow>
     (case TransactionReceipt ch txHash of
        Inl e \<Rightarrow> Inl (Returned e)
      | Inr txReceipt \<Rightarrow>
     (case BlockByHash ch (rc_BlockHash txReceipt) of
        Inl e \<Rightarrow> Inl (Returned e)
      | Inr block \<Rightarrow>
     (case receiptsTrie lib ch txReceipt 0 (blk_Transactions block) (trie_new lib, [], []) of
        Inl e \<Rightarrow> Inl (Returned e)
      | Inr (merkleTrie, path, rlpEncodedReceipt) \<Rightarrow>
          let proofNodes = findLeafProof (trie_NodeIterator lib merkleTrie) path;
              rlpEncodedProofNodes = rlp_byteslices proofNodes;
              rlpEncodedHeader = rlp_Header (blk_Header block)
          in Inr (rlpEncodedHeader, rlpEncodedReceipt, path, rlpEncodedProofNodes)))))"

text \<open>The payload of the full encoding: the fifteen encoded fields, one after the other.\<close>

definition header_payload :: "Header \<Rightarrow> bytes" where
  "header_payload h =
     rlp_string (ParentHash h) @ rlp_string (UncleHash h) @ rlp_string (Coinbase h) @
     rlp_string (Root h) @ rlp_string (TxHash h) @ rlp_string (ReceiptHash h) @
     rlp_string (Bloom h) @ rlp_string (be_enc (nat (Difficulty h))) @
     rlp_string (be_enc (nat (Number h))) @ rlp_string (be_enc (unat (GasLimit h))) @
     rlp_string (be_enc (unat (GasUsed h))) @ rlp_string (be_enc (unat (Time h))) @
     rlp_string (Extra h) @ rlp_string (MixDigest h) @ rlp_string (Nonce h)"

text \<open>
  A 32-byte word of the contract ABI: the number big-endian, padded with zero bytes on
  the left. The call data of the submission function is the selector, the offset word
  (32), the length word, and the bytes of the header, padded.
\<close>

definition abi_word :: "nat \<Rightarrow> bytes" where
  "abi_word n = replicate (32 - length (be_enc n)) 0 @ be_enc n"

text \<open>
  The batches of \<^verbatim>\<open>SetEpochData\<close> as the specification describes them, to be
  compared with the loop: the nodes are cut into consecutive batches of 40 (the last
  one may be shorter); batch \<open>j\<close> starts at offset \<open>40 * j\<close>; a batch is left out
  when the epoch is 128 and the index of its last node is below 440, and is a
  transaction otherwise.
\<close>

fun expectedBatches :: "EpochData \<Rightarrow> nat \<Rightarrow> int list \<Rightarrow> SetEpochDataCall list" where
  "expectedBatches epochData j ns =
     (if ns = [] then []
      else
        let batch = take 40 ns; lastIndex = 40 * j + length batch - 1 in
        (if big_Uint64 (Epoch epochData) = 128 \<and> lastIndex < 440 then []
         else [\<lparr>sed_epoch = Epoch epochData,
                sed_fullSizeIn128Resolution = FullSizeIn128Resolution epochData,
                sed_branchDepth = BranchDepth epochData,
                sed_nodes = batch, sed_start = int (40 * j),
                sed_mnlen = int (length batch)\<rparr>])
        @ expectedBatches epochData (Suc j) (drop 40 ns))"

declare expectedBatches.simps [simp del]

text \<open>
  Every submission goes through: the transaction options are prepared, the contract
  accepts every call, and every receipt arrives with a non-zero status.
\<close>

definition submissionsSucceed :: "Chain \<Rightarrow> bool" where
  "submissionsSucceed ch \<longleftrightarrow>
     (\<exists>auth. prepareTransaction ch 0 = Inr auth) \<and>
     (\<forall>call. \<exists>tx rc. SetEpochDataTx ch call = Inr tx \<and>
                 awaitTxReceipt ch (tx_Hash tx) = Inr rc \<and> rc_Status rc \<noteq> 0)"

text \<open>Whether the walk over the trie meets a leaf whose key is the path.\<close>

fun leafFound :: "trie_pos list \<Rightarrow> bytes \<Rightarrow> bool" where
  "leafFound [] path = False"
| "leafFound (InnerNode # ps) path = leafFound ps path"
| "leafFound (LeafNode k prf # ps) path = (k = path \<or> leafFound ps path)"

text \<open>
  Modelled from the spec: what the builders rely on from the trie library, which the
  repository does not contain, and what replaying a proof means. The spec (section 3,
  Merkle Trie Proof): re-walking the trie from the proof nodes using the given path
  must reconstruct the same leaf value and must hash, bottom-up, to the root. A trie
  holds a value per key (\<open>content\<close>); \<^verbatim>\<open>Update\<close> with an admissible value (\<open>okv\<close>: at
  least, not empty) stores it under the key and changes no other key; the iterator
  visits a leaf for every key of the trie; and for every leaf the iterator visits, the
  replay \<open>verify root key proof\<close> of \<^verbatim>\<open>LeafProof()\<close> along \<^verbatim>\<open>LeafKey()\<close> against the root
  \<^verbatim>\<open>Hash()\<close> gives the value stored under that key. \<open>wft\<close> is the invariant of the tries
  that the library builds.
\<close>

definition trie_contract ::
  "'t TrieLib \<Rightarrow> ('t \<Rightarrow> bool) \<Rightarrow> (bytes \<Rightarrow> bool) \<Rightarrow> ('t \<Rightarrow> bytes \<Rightarrow> bytes option) \<Rightarrow>
     (bytes \<Rightarrow> bytes \<Rightarrow> bytes list \<Rightarrow> bytes option) \<Rightarrow> bool" where
  "trie_contract lib wft okv content verify \<longleftrightarrow>
     wft (trie_new lib) \<and>
     (\<forall>k. content (trie_new lib) k = None) \<and>
     (\<forall>t k v. wft t \<and> okv v \<longrightarrow>
        wft (trie_Update lib t k v) \<and>
        (\<forall>k'. content (trie_Update lib t k v) k' = (if k' = k then Some v else content t k'))) \<and>
     (\<forall>t k v. wft t \<and> content t k = Some v \<longrightarrow> leafFound (trie_NodeIterator lib t) k) \<and>
     (\<forall>t k prf. wft t \<and> LeafNode k prf \<in> set (trie_NodeIterator lib t) \<longrightarrow>
        content t k \<noteq> None \<and> verify (trie_Hash lib t) k prf = content t k)"

text \<open>The trie key of index \<open>i\<close>: \<^verbatim>\<open>rlp.Encode(buffer, uint(i))\<close>.\<close>

definition txKey :: "nat \<Rightarrow> bytes" where
  "txKey i = rlp_uint (of_nat i)"

section \<open>Sample inputs\<close>

text \<open>A header of the shape of an Ethereum header, used where a theorem is run on an input.\<close>

definition sample_header :: Header where
  "sample_header =
     \<lparr>ParentHash = replicate 32 0x11, UncleHash = replicate 32 0x22,
      Coinbase = replicate 20 0x33, Root = replicate 32 0x44, TxHash = replicate 32 0x55,
      ReceiptHash = replicate 32 0x66, Bloom = replicate 256 0, Difficulty = 131072,
      Number = 100, GasLimit = 8000000, GasUsed = 21000, Time = 1500000000,
      Extra = [0xde, 0xad], MixDigest = replicate 32 0x77,
      Nonce = [0, 0, 0, 0, 0, 0, 0, 0x42]\<rparr>"

text \<open>
  A chain whose event log holds one submit-header event with the given data, emitted by
  a finalized transaction with the given call data; every other remote call fails.
\<close>

definition one_event_chain :: "bytes \<Rightarrow> bytes \<Rightarrow> Chain" where
  "one_event_chain eventData txData =
     \<lparr>FilterSubmitHeader = Inr [\<lparr>Raw_Data = eventData, Raw_TxHash = [0xaa]\<rparr>],
      TransactionByHash = (\<lambda>h. Inr (\<lparr>tx_Hash = h, tx_Data = txData, tx_Rlp = []\<rparr>, False)),
      TransactionReceipt = (\<lambda>h. Inl (ClientError 0)),
      BlockByHash = (\<lambda>h. Inl (ClientError 0)),
      PendingNonceAt = Inl (ClientError 0),
      SuggestGasPrice = Inl (ClientError 0),
      DisputeBlockHeader = (\<lambda>c. Inl (ClientError 0)),
      SetEpochDataTx = (\<lambda>c. Inl (ClientError 0)),
      awaitTxReceipt = (\<lambda>h. Inl (ClientError 0)),
      CallContract = (\<lambda>t b. Inl (ClientError 0)),
      FilterRemoveBranch = (\<lambda>n. Inl (ClientError 0)),
      FilterPoWValidationResult = (\<lambda>n. Inl (ClientError 0))\<rparr>"

text \<open>
  Call data of the submission function carrying the three bytes 1, 2, 3: the selector,
  the offset word 32, the length word 3, the bytes, and 29 bytes of padding.
\<close>

definition sample_calldata :: bytes where
  "sample_calldata = submitSelector @ abi_word 32 @ abi_word 3 @ [1, 2, 3] @ replicate 29 0"

text \<open>
  The call data that submits \<open>sample_header\<close>: the selector, the offset word, the
  length word, the encoded header, and zero padding up to a multiple of 32 bytes.
\<close>

definition sample_header_bytes :: bytes where
  "sample_header_bytes = rlp_list (header_payload sample_header)"

definition sample_header_calldata :: bytes where
  "sample_header_calldata =
     submitSelector @ abi_word 32 @ abi_word (length sample_header_bytes) @
     sample_header_bytes @ replicate ((32 - length sample_header_bytes mod 32) mod 32) 0"

text \<open>
  A chain on which transactions go through, and on which \<open>sample_header\<close> can be
  disputed: the log holds the
  submission of the header (event data \<open>[7]\<close>, transaction \<open>[1]\<close>) and the submission
  of its parent (event data the parent hash, transaction \<open>[2]\<close>, call data
  \<open>sample_calldata\<close>); every transaction is accepted and its receipt reports success.
\<close>

definition accepting_chain :: Chain where
  "accepting_chain =
     \<lparr>FilterSubmitHeader =
        Inr [\<lparr>Raw_Data = [7], Raw_TxHash = [1]\<rparr>,
             \<lparr>Raw_Data = replicate 32 0x11, Raw_TxHash = [2]\<rparr>],
      TransactionByHash =
        (\<lambda>h. Inr (\<lparr>tx_Hash = h,
                       tx_Data = (if h = [1] then sample_header_calldata else sample_calldata),
                       tx_Rlp = []\<rparr>, False)),
      TransactionReceipt = (\<lambda>h. Inl (ClientError 0)),
      BlockByHash = (\<lambda>h. Inl (ClientError 0)),
      PendingNonceAt = Inr 5,
      SuggestGasPrice = Inr 1,
      DisputeBlockHeader = (\<lambda>c. Inr \<lparr>tx_Hash = [3], tx_Data = [], tx_Rlp = []\<rparr>),
      SetEpochDataTx = (\<lambda>c. Inr \<lparr>tx_Hash = [4], tx_Data = [], tx_Rlp = []\<rparr>),
      awaitTxReceipt =
        (\<lambda>h. Inr \<lparr>rc_TxHash = h, rc_BlockHash = [], rc_TransactionIndex = 0, rc_Status = 1,
                     rc_BlockNumber = 10, rc_Rlp = []\<rparr>),
      CallContract = (\<lambda>t b. Inl (ClientError 0)),
      FilterRemoveBranch = (\<lambda>n. Inr []),
      FilterPoWValidationResult = (\<lambda>n. Inr [])\<rparr>"

text \<open>
  A PoW library that records the triple it is called with: the metadata is the triple,
  the first array reads the number and the nonce back, the second the bytes of the hash.
  The digest is a placeholder of 32 bytes.
\<close>

definition recording_lib :: "(uint64 \<times> uint64 \<times> bytes) PoWLib" where
  "recording_lib =
     \<lparr>Keccak256 = (\<lambda>b. replicate 32 0x99),
      NewBlockMetaData = (\<lambda>n k h. (n, k, h)),
      DAGElementArray = (\<lambda>(n, k, h). [uint n, uint k]),
      DAGProofArray = (\<lambda>(n, k, h). map uint h)\<rparr>"

text \<open>
  A stand-in for \<^verbatim>\<open>fmt.Sprintf\<close> on a format string without operands: the string as it
  is. The sample chains report success for every transaction, so that no reason is
  ever formatted on them.
\<close>

definition verbatim_Sprintf :: "bytes \<Rightarrow> bytes" where
  "verbatim_Sprintf format = format"

definition sample_client :: Client where
  "sample_client = \<lparr>chains = (\<lambda>i. if i = 1 then Some accepting_chain else None)\<rparr>"

text \<open>
  A stand-in for the trie library, to run the builders on an input: it keeps the
  key/value pairs (an update with an empty value deletes the key), visits them as
  leaves, and has placeholders for the root hash (32 zero bytes) and for the proof of a
  leaf (the value alone). The theorems about the builders hold for every library.
\<close>

definition list_trie :: "(bytes \<times> bytes) list TrieLib" where
  "list_trie =
     \<lparr>trie_new = [],
      trie_Update = (\<lambda>t k v. (if v = [] then [] else [(k, v)]) @ filter (\<lambda>kv. fst kv \<noteq> k) t),
      trie_Hash = (\<lambda>t. replicate 32 0),
      trie_NodeIterator = (\<lambda>t. map (\<lambda>kv. LeafNode (fst kv) [snd kv]) t)\<rparr>"

text \<open>
  A chain that serves one block with the given header and a single transaction (hash
  \<open>[9]\<close>, encoding \<open>[0xc1, 0x01]\<close>); the receipt it returns for a transaction hash
  carries that hash, the block's hash and the index 0.
\<close>

definition one_tx_chain :: "Header \<Rightarrow> Chain" where
  "one_tx_chain hdr =
     \<lparr>FilterSubmitHeader = Inl (ClientError 0),
      TransactionByHash = (\<lambda>h. Inl (ClientError 0)),
      TransactionReceipt =
        (\<lambda>h. Inr \<lparr>rc_TxHash = h, rc_BlockHash = [0xb1], rc_TransactionIndex = 0,
                     rc_Status = 1, rc_BlockNumber = 100, rc_Rlp = [0xc1, 0x02]\<rparr>),
      BlockByHash =
        (\<lambda>h. Inr \<lparr>blk_Header = hdr,
                     blk_Transactions = [\<lparr>tx_Hash = [9], tx_Data = [], tx_Rlp = [0xc1, 0x01]\<rparr>]\<rparr>),
      PendingNonceAt = Inl (ClientError 0),
      SuggestGasPrice = Inl (ClientError 0),
      DisputeBlockHeader = (\<lambda>c. Inl (ClientError 0)),
      SetEpochDataTx = (\<lambda>c. Inl (ClientError 0)),
      awaitTxReceipt = (\<lambda>h. Inl (ClientError 0)),
      CallContract = (\<lambda>t b. Inl (ClientError 0)),
      FilterRemoveBranch = (\<lambda>n. Inl (ClientError 0)),
      FilterPoWValidationResult = (\<lambda>n. Inl (ClientError 0))\<rparr>"

definition one_tx_client :: "Header \<Rightarrow> Client" where
  "one_tx_client hdr = \<lparr>chains = (\<lambda>i. if i = 1 then Some (one_tx_chain hdr) else None)\<rparr>"

text \<open>
  A stand-in for the trie library whose proofs can be replayed. A trie is its list of
  key/value pairs; its nodes are the keys and the values, one after the other; the root
  is the encoding of the nodes (it stands for their digest, and determines them); the
  walk visits the root and then one leaf per pair, and the proof of every leaf is the
  list of all nodes. Replaying a proof along a key recomputes the root from the nodes,
  compares it with the given root, and reads the value that follows the key.
\<close>

definition flat_nodes :: "(bytes \<times> bytes) list \<Rightarrow> bytes list" where
  "flat_nodes t = concat (map (\<lambda>kv. [fst kv, snd kv]) t)"

definition flat_root :: "bytes list \<Rightarrow> bytes" where
  "flat_root nodes = rlp_byteslices nodes"

definition flat_trie :: "(bytes \<times> bytes) list TrieLib" where
  "flat_trie =
     \<lparr>trie_new = [],
      trie_Update = (\<lambda>t k v. (if v = [] then [] else [(k, v)]) @ filter (\<lambda>kv. fst kv \<noteq> k) t),
      trie_Hash = (\<lambda>t. flat_root (flat_nodes t)),
      trie_NodeIterator = (\<lambda>t. InnerNode # map (\<lambda>kv. LeafNode (fst kv) (flat_nodes t)) t)\<rparr>"

fun flat_lookup :: "bytes \<Rightarrow> bytes list \<Rightarrow> bytes option" where
  "flat_lookup k (k' # v # rest) = (if k' = k then Some v else flat_lookup k rest)"
| "flat_lookup k [k'] = None"
| "flat_lookup k [] = None"

definition flat_verify :: "bytes \<Rightarrow> bytes \<Rightarrow> bytes list \<Rightarrow> bytes option" where
  "flat_verify root k nodes = (if flat_root nodes = root then flat_lookup k nodes else None)"

text \<open>
  The tries of the stand-in have distinct keys; the values it stores are the non-empty
  ones.
\<close>

definition flat_wft :: "(bytes \<times> bytes) list \<Rightarrow> bool" where
  "flat_wft t \<longleftrightarrow> distinct (map fst t)"

definition flat_okv :: "bytes \<Rightarrow> bool" where
  "flat_okv v \<longleftrightarrow> v \<noteq> []"

text \<open>
  A chain that serves one block with the given header and three transactions (hashes
  \<open>[9]\<close>, \<open>[10]\<close>, \<open>[11]\<close>, encodings \<open>[0xc1, 0x01]\<close>, \<open>[0xc1, 0x02]\<close>, \<open>[0xc1, 0x03]\<close>);
  the receipt it returns for a transaction hash carries that hash, the block's hash and
  the index 1, which is the index of transaction \<open>[10]\<close>.
\<close>

definition three_txs :: "Transaction list" where
  "three_txs =
     [\<lparr>tx_Hash = [9], tx_Data = [], tx_Rlp = [0xc1, 0x01]\<rparr>,
      \<lparr>tx_Hash = [10], tx_Data = [], tx_Rlp = [0xc1, 0x02]\<rparr>,
      \<lparr>tx_Hash = [11], tx_Data = [], tx_Rlp = [0xc1, 0x03]\<rparr>]"

definition three_tx_chain :: "Header \<Rightarrow> Chain" where
  "three_tx_chain hdr =
     (one_tx_chain hdr)
       \<lparr>TransactionReceipt :=
          (\<lambda>h. Inr \<lparr>rc_TxHash = h, rc_BlockHash = [0xb3], rc_TransactionIndex = 1,
                       rc_Status = 1, rc_BlockNumber = 100, rc_Rlp = [0xc1, 0x0b]\<rparr>),
        BlockByHash := (\<lambda>h. Inr \<lparr>blk_Header = hdr, blk_Transactions = three_txs\<rparr>)\<rparr>"

definition three_tx_client :: "Header \<Rightarrow> Client" where
  "three_tx_client hdr = \<lparr>chains = (\<lambda>i. if i = 1 then Some (three_tx_chain hdr) else None)\<rparr>"

text \<open>
  The nodes of the stand-in trie of \<open>three_txs\<close> (the keys are the encodings of 2, 1
  and 0, the last update first), and a header that stores their root.
\<close>

definition three_tx_nodes :: "bytes list" where
  "three_tx_nodes = [[0x02], [0xc1, 0x03], [0x01], [0xc1, 0x02], [0x80], [0xc1, 0x01]]"

definition consistent_header :: Header where
  "consistent_header = sample_header\<lparr>TxHash := flat_root three_tx_nodes\<rparr>"

text \<open>
  A header whose number is \<open>2^64 + 100\<close>, beyond the range of \<^verbatim>\<open>uint64\<close>, the call data
  that submits it, and a chain like \<open>accepting_chain\<close> on which it is the header
  submitted by transaction \<open>[1]\<close>.
\<close>

definition huge_number_header :: Header where
  "huge_number_header = sample_header\<lparr>Number := 18446744073709551716\<rparr>"

definition huge_number_bytes :: bytes where
  "huge_number_bytes = rlp_list (header_payload huge_number_header)"

definition huge_number_calldata :: bytes where
  "huge_number_calldata =
     submitSelector @ abi_word 32 @ abi_word (length huge_number_bytes) @
     huge_number_bytes @ replicate ((32 - length huge_number_bytes mod 32) mod 32) 0"

definition huge_number_chain :: Chain where
  "huge_number_chain =
     accepting_chain
       \<lparr>TransactionByHash :=
          (\<lambda>h. Inr (\<lparr>tx_Hash = h,
                         tx_Data = (if h = [1] then huge_number_calldata else sample_calldata),
                         tx_Rlp = []\<rparr>, False))\<rparr>"

definition huge_number_client :: Client where
  "huge_number_client = \<lparr>chains = (\<lambda>i. if i = 1 then Some huge_number_chain else None)\<rparr>"
section \<open>The RLP codec: decoding an encoding\<close>

lemma be_dec_snoc: "be_dec (xs @ [b]) = be_dec xs * 256 + unat b"
  by (simp add: be_dec_def)

lemma be_enc_0: "be_enc 0 = []"
  by (simp add: be_enc.simps)

lemma be_dec_be_enc: "be_dec (be_enc n) = n"
proof (induction n rule: be_enc.induct)
  case (1 n)
  show ?case
  proof (cases "n = 0")
    case True
    then show ?thesis by (simp add: be_enc.simps be_dec_def)
  next
    case False
    have "unat (of_nat (n mod 256) :: byte) = n mod 256"
      by (simp add: unat_of_nat)
    with False 1 show ?thesis
      by (subst be_enc.simps) (simp add: be_dec_snoc)
  qed
qed

lemma be_enc_nonzero: "n \<noteq> 0 \<Longrightarrow> be_enc n \<noteq> [] \<and> hd (be_enc n) \<noteq> 0"
proof (induction n rule: be_enc.induct)
  case (1 n)
  show ?case
  proof (cases "n div 256 = 0")
    case True
    then have lt: "n < 256" by (simp add: div_eq_0_iff)
    have "be_enc n = [of_nat n]"
      using 1(2) True lt by (subst be_enc.simps) (simp add: be_enc_0)
    moreover have "(of_nat n :: byte) \<noteq> 0"
    proof
      assume "(of_nat n :: byte) = 0"
      then have "unat (of_nat n :: byte) = 0" by simp
      then show False using 1(2) lt by (simp add: unat_of_nat)
    qed
    ultimately show ?thesis by simp
  next
    case False
    with 1 have "be_enc (n div 256) \<noteq> [] \<and> hd (be_enc (n div 256)) \<noteq> 0" by simp
    then show ?thesis using 1(2)
      by (subst (1 2) be_enc.simps) simp
  qed
qed

lemma length_be_enc: "n < 256 ^ k \<Longrightarrow> length (be_enc n) \<le> k"
proof (induction k arbitrary: n)
  case 0
  then show ?case by (simp add: be_enc_0)
next
  case (Suc k)
  show ?case
  proof (cases "n = 0")
    case True
    then show ?thesis by (simp add: be_enc_0)
  next
    case False
    have "n div 256 < 256 ^ k" using Suc.prems by (simp add: less_mult_imp_div_less mult.commute)
    then have "length (be_enc (n div 256)) \<le> k" by (rule Suc.IH)
    then show ?thesis using False by (subst be_enc.simps) simp
  qed
qed

lemma length_be_enc_pos: "n \<noteq> 0 \<Longrightarrow> 0 < length (be_enc n)"
  using be_enc_nonzero by auto

lemma unat_byte: "n < 256 \<Longrightarrow> unat (of_nat n :: byte) = n"
  by (simp add: unat_of_nat)

lemma rlp_take_exact: "rlp_take kd (length bs) (bs @ rest) = Some (kd, bs, rest)"
  by (simp add: rlp_take_def)

lemma rlp_long_exact:
  assumes "56 \<le> length bs"
  shows "rlp_long kd (length (be_enc (length bs))) (be_enc (length bs) @ bs @ rest)
           = Some (kd, bs, rest)"
proof -
  have nz: "length bs \<noteq> 0" using assms by auto
  have hd: "hd (be_enc (length bs)) \<noteq> 0" using be_enc_nonzero[OF nz] by simp
  have "rlp_long kd (length (be_enc (length bs))) (be_enc (length bs) @ bs @ rest)
          = rlp_take kd (length bs) (bs @ rest)"
    using hd assms by (auto simp add: rlp_long_def be_dec_be_enc)
  then show ?thesis by (simp add: rlp_take_exact)
qed

lemma rlp_split_prefix_string:
  assumes "length bs < 2 ^ 64"
  shows "rlp_split (rlp_prefix 0x80 (length bs) @ bs @ rest) = Some (KString, bs, rest)"
proof (cases "length bs < 56")
  case True
  then have u: "unat (of_nat (128 + length bs) :: byte) = 128 + length bs"
    by (intro unat_byte) simp
  have "rlp_split (of_nat (128 + length bs) # bs @ rest) = rlp_take KString (length bs) (bs @ rest)"
    unfolding rlp_split_def list.case Let_def u using True by simp
  then show ?thesis using True by (simp add: rlp_prefix_def rlp_take_exact)
next
  case False
  define k where "k = length (be_enc (length bs))"
  have k8: "k \<le> 8" unfolding k_def using assms by (intro length_be_enc) simp
  have k0: "0 < k" unfolding k_def using False by (intro length_be_enc_pos) auto
  have u: "unat (of_nat (128 + 55 + k) :: byte) = 128 + 55 + k"
    using k8 by (intro unat_byte) simp
  have "rlp_split (of_nat (128 + 55 + k) # be_enc (length bs) @ bs @ rest)
          = rlp_long KString k (be_enc (length bs) @ bs @ rest)"
    unfolding rlp_split_def list.case Let_def u using k8 k0 by simp
  also have "\<dots> = Some (KString, bs, rest)"
    unfolding k_def using False by (intro rlp_long_exact) simp
  finally show ?thesis using False by (simp add: rlp_prefix_def k_def)
qed

lemma rlp_split_list:
  assumes "length p < 2 ^ 64"
  shows "rlp_split (rlp_list p @ rest) = Some (KList, p, rest)"
proof (cases "length p < 56")
  case True
  then have u: "unat (of_nat (192 + length p) :: byte) = 192 + length p"
    by (intro unat_byte) simp
  have "rlp_split (of_nat (192 + length p) # p @ rest) = rlp_take KList (length p) (p @ rest)"
    unfolding rlp_split_def list.case Let_def u using True by simp
  then show ?thesis using True by (simp add: rlp_list_def rlp_prefix_def rlp_take_exact)
next
  case False
  define k where "k = length (be_enc (length p))"
  have k8: "k \<le> 8" unfolding k_def using assms by (intro length_be_enc) simp
  have k0: "0 < k" unfolding k_def using False by (intro length_be_enc_pos) auto
  have u: "unat (of_nat (192 + 55 + k) :: byte) = 192 + 55 + k"
    using k8 by (intro unat_byte) simp
  have "rlp_split (of_nat (192 + 55 + k) # be_enc (length p) @ p @ rest)
          = rlp_long KList k (be_enc (length p) @ p @ rest)"
    unfolding rlp_split_def list.case Let_def u using k8 k0 by simp
  also have "\<dots> = Some (KList, p, rest)"
    unfolding k_def using False by (intro rlp_long_exact) simp
  finally show ?thesis using False by (simp add: rlp_list_def rlp_prefix_def k_def)
qed

lemma dec_bytes_rlp_string:
  assumes "length bs < 2 ^ 64"
  shows "dec_bytes (rlp_string bs @ rest) = Some (bs, rest)"
proof (cases "\<exists>b. bs = [b]")
  case True
  then obtain b where b: "bs = [b]" by blast
  show ?thesis
  proof (cases "b < 0x80")
    case True
    then have "unat b < 128" by (simp add: word_less_nat_alt)
    then have "rlp_split (b # rest) = Some (KByte, [b], rest)"
      by (simp add: rlp_split_def)
    with True b show ?thesis
      by (simp add: rlp_string_def dec_bytes_def)
  next
    case False
    have "rlp_split (rlp_prefix 0x80 (length [b]) @ [b] @ rest) = Some (KString, [b], rest)"
      by (rule rlp_split_prefix_string) simp
    with False b show ?thesis
      by (simp add: rlp_string_def dec_bytes_def)
  qed
next
  case False
  then have rs: "rlp_string bs = rlp_prefix 0x80 (length bs) @ bs"
    by (simp add: rlp_string_def split: list.splits)
  have sp: "rlp_split (rlp_prefix 0x80 (length bs) @ bs @ rest) = Some (KString, bs, rest)"
    using assms by (rule rlp_split_prefix_string)
  have "\<not> (length bs = 1 \<and> hd bs < 0x80)"
    using False by (cases bs) auto
  then show ?thesis using rs sp by (simp add: dec_bytes_def)
qed

lemma length_rlp_prefix: "n < 2 ^ 64 \<Longrightarrow> length (rlp_prefix off n) \<le> 9"
proof -
  assume "n < 2 ^ 64"
  then have "length (be_enc n) \<le> 8" by (intro length_be_enc) simp
  then show ?thesis by (simp add: rlp_prefix_def)
qed

lemma length_rlp_string: "length bs < 2 ^ 64 \<Longrightarrow> length (rlp_string bs) \<le> length bs + 9"
proof -
  assume a: "length bs < 2 ^ 64"
  have p: "length (rlp_prefix 0x80 (length bs)) \<le> 9" using a by (rule length_rlp_prefix)
  have q: "length (rlp_prefix 0x80 1) \<le> 9" by (rule length_rlp_prefix) simp
  show ?thesis
  proof (cases "\<exists>b. bs = [b]")
    case True
    then show ?thesis using q by (auto simp add: rlp_string_def)
  next
    case False
    then have "rlp_string bs = rlp_prefix 0x80 (length bs) @ bs"
      by (simp add: rlp_string_def split: list.splits)
    then show ?thesis using p by simp
  qed
qed

lemma dec_array_rlp_string:
  "length bs = n \<Longrightarrow> n < 2 ^ 64 \<Longrightarrow> dec_array n (rlp_string bs @ rest) = Some (bs, rest)"
  by (simp add: dec_array_def dec_bytes_rlp_string)

lemma dec_bigint_rlp:
  assumes "0 \<le> i" "i < 2 ^ 256"
  shows "dec_bigint (rlp_string (be_enc (nat i)) @ rest) = Some (i, rest)"
proof -
  have "nat i < 256 ^ 32" using assms by (simp add: nat_less_iff)
  then have "length (be_enc (nat i)) \<le> 32" by (rule length_be_enc)
  then have l: "length (be_enc (nat i)) < 2 ^ 64" by simp
  have "be_enc (nat i) \<noteq> [] \<Longrightarrow> hd (be_enc (nat i)) \<noteq> 0"
    using be_enc_nonzero[of "nat i"] by (cases "nat i = 0") (simp_all add: be_enc_0)
  then show ?thesis
    using assms by (auto simp add: dec_bigint_def dec_bytes_rlp_string[OF l] be_dec_be_enc)
qed

lemma dec_uint64_rlp:
  "dec_uint64 (rlp_string (be_enc (unat (w :: uint64))) @ rest) = Some (w, rest)"
proof -
  have "unat w < 2 ^ 64" using unsigned_less[of w] by simp
  then have "unat w < 256 ^ 8" by simp
  then have l8: "length (be_enc (unat w)) \<le> 8" by (rule length_be_enc)
  then have l: "length (be_enc (unat w)) < 2 ^ 64" by simp
  have "be_enc (unat w) \<noteq> [] \<Longrightarrow> hd (be_enc (unat w)) \<noteq> 0"
    using be_enc_nonzero[of "unat w"] by (cases "unat w = 0") (simp_all add: be_enc_0)
  then show ?thesis
    using l8 by (auto simp add: dec_uint64_def dec_bytes_rlp_string[OF l] be_dec_be_enc)
qed

lemma dec_bytes_rlp_string_end:
  "length bs < 2 ^ 64 \<Longrightarrow> dec_bytes (rlp_string bs) = Some (bs, [])"
  using dec_bytes_rlp_string[of bs "[]"] by simp

lemma dec_array_rlp_string_end:
  "length bs = n \<Longrightarrow> n < 2 ^ 64 \<Longrightarrow> dec_array n (rlp_string bs) = Some (bs, [])"
  using dec_array_rlp_string[of bs n "[]"] by simp

lemma encodeHeaderToRLP_payload:
  "0 \<le> Difficulty h \<Longrightarrow> 0 \<le> Number h \<Longrightarrow>
     encodeHeaderToRLP h = Inr (rlp_list (header_payload h))"
  by (simp add: encodeHeaderToRLP_def rlp_Encode_def header_payload_def)

lemma dec_header_fields_payload:
  assumes "valid_header h"
  shows "dec_header_fields (header_payload h) = Some (h, [])"
proof -
  have e: "length (Extra h) < 2 ^ 64"
    using assms by (simp add: valid_header_def)
  show ?thesis
    using assms e
    by (simp add: valid_header_def dec_header_fields_def header_payload_def
        dec_array_rlp_string dec_array_rlp_string_end dec_bigint_rlp dec_uint64_rlp
        dec_bytes_rlp_string)
qed

lemma length_be_enc_int: "0 \<le> i \<Longrightarrow> i < 2 ^ 256 \<Longrightarrow> length (be_enc (nat i)) \<le> 32"
proof -
  assume "0 \<le> i" "i < 2 ^ 256"
  then have "nat i < 256 ^ 32" by (simp add: nat_less_iff)
  then show ?thesis by (rule length_be_enc)
qed

lemma length_be_enc_u64: "length (be_enc (unat (w :: uint64))) \<le> 8"
proof -
  have "unat w < 2 ^ 64" using unsigned_less[of w] by simp
  then have "unat w < 256 ^ 8" by simp
  then show ?thesis by (rule length_be_enc)
qed

lemma length_rlp_string_le: "length bs \<le> m \<Longrightarrow> m < 2 ^ 64 \<Longrightarrow> length (rlp_string bs) \<le> m + 9"
  using length_rlp_string[of bs] by simp

lemma length_header_payload_le:
  assumes "valid_header h"
  shows "length (header_payload h) \<le> 2 ^ 32 + 1000"
proof -
  have v: "length (ParentHash h) = 32" "length (UncleHash h) = 32" "length (Coinbase h) = 20"
    "length (Root h) = 32" "length (TxHash h) = 32" "length (ReceiptHash h) = 32"
    "length (Bloom h) = 256" "length (MixDigest h) = 32" "length (Nonce h) = 8"
    "0 \<le> Difficulty h" "Difficulty h < 2 ^ 256" "0 \<le> Number h" "Number h < 2 ^ 256"
    "length (Extra h) < 2 ^ 32"
    using assms by (simp_all add: valid_header_def)
  have a1: "length (rlp_string (ParentHash h)) \<le> 32 + 9"
    by (rule length_rlp_string_le) (simp_all add: v)
  have a2: "length (rlp_string (UncleHash h)) \<le> 32 + 9"
    by (rule length_rlp_string_le) (simp_all add: v)
  have a3: "length (rlp_string (Coinbase h)) \<le> 20 + 9"
    by (rule length_rlp_string_le) (simp_all add: v)
  have a4: "length (rlp_string (Root h)) \<le> 32 + 9"
    by (rule length_rlp_string_le) (simp_all add: v)
  have a5: "length (rlp_string (TxHash h)) \<le> 32 + 9"
    by (rule length_rlp_string_le) (simp_all add: v)
  have a6: "length (rlp_string (ReceiptHash h)) \<le> 32 + 9"
    by (rule length_rlp_string_le) (simp_all add: v)
  have a7: "length (rlp_string (Bloom h)) \<le> 256 + 9"
    by (rule length_rlp_string_le) (simp_all add: v)
  have a8: "length (rlp_string (be_enc (nat (Difficulty h)))) \<le> 32 + 9"
    using length_be_enc_int[OF v(10) v(11)] by (rule length_rlp_string_le) simp
  have a9: "length (rlp_string (be_enc (nat (Number h)))) \<le> 32 + 9"
    using length_be_enc_int[OF v(12) v(13)] by (rule length_rlp_string_le) simp
  have a10: "length (rlp_string (be_enc (unat (GasLimit h)))) \<le> 8 + 9"
    by (rule length_rlp_string_le) (simp_all add: length_be_enc_u64)
  have a11: "length (rlp_string (be_enc (unat (GasUsed h)))) \<le> 8 + 9"
    by (rule length_rlp_string_le) (simp_all add: length_be_enc_u64)
  have a12: "length (rlp_string (be_enc (unat (Time h)))) \<le> 8 + 9"
    by (rule length_rlp_string_le) (simp_all add: length_be_enc_u64)
  have a13: "length (rlp_string (Extra h)) \<le> 2 ^ 32 + 9"
    using v(14) by (intro length_rlp_string_le) simp_all
  have a14: "length (rlp_string (MixDigest h)) \<le> 32 + 9"
    by (rule length_rlp_string_le) (simp_all add: v)
  have a15: "length (rlp_string (Nonce h)) \<le> 8 + 9"
    by (rule length_rlp_string_le) (simp_all add: v)
  show ?thesis
    using a1 a2 a3 a4 a5 a6 a7 a8 a9 a10 a11 a12 a13 a14 a15
    by (simp add: header_payload_def)
qed

lemma length_header_payload:
  assumes "valid_header h"
  shows "length (header_payload h) < 2 ^ 64"
  using length_header_payload_le[OF assms] by simp

lemma length_rlp_list: "length p < 2 ^ 64 \<Longrightarrow> length (rlp_list p) \<le> length p + 9"
  using length_rlp_prefix[of "length p" "0xc0"] by (simp add: rlp_list_def)

lemma decodeHeader_payload:
  assumes "valid_header h"
  shows "decodeHeaderFromRLP (rlp_list (header_payload h)) = Inr h"
proof -
  have "rlp_split (rlp_list (header_payload h) @ []) = Some (KList, header_payload h, [])"
    using length_header_payload[OF assms] by (rule rlp_split_list)
  then show ?thesis
    using dec_header_fields_payload[OF assms] by (simp add: decodeHeaderFromRLP_def)
qed

section \<open>The header codec\<close>

text \<open>
  C3 (header codec round trip). For every valid header \<open>h\<close> the full fifteen-field
  encoding succeeds, and decoding the bytes it produces gives back \<open>h\<close>:
  \<open>decodeHeaderFromRLP (encodeHeaderToRLP h) = h\<close>.
\<close>

theorem header_roundtrip:
  assumes "valid_header h"
  shows "\<exists>bs. encodeHeaderToRLP h = Inr bs \<and> decodeHeaderFromRLP bs = Inr h"
proof -
  have enc: "encodeHeaderToRLP h = Inr (rlp_list (header_payload h))"
    using assms by (intro encodeHeaderToRLP_payload) (simp_all add: valid_header_def)
  have "decodeHeaderFromRLP (rlp_list (header_payload h)) = Inr h"
    using assms by (rule decodeHeader_payload)
  with enc show ?thesis by blast
qed

theorem header_roundtrip_witness:
  "valid_header sample_header \<and>
   (\<exists>bs. encodeHeaderToRLP sample_header = Inr bs \<and> decodeHeaderFromRLP bs = Inr sample_header)"
proof -
  have v: "valid_header sample_header"
    by (simp add: valid_header_def sample_header_def)
  show ?thesis using v header_roundtrip[OF v] by simp
qed

text \<open>
  C5 (the nonce-free encoding). \<open>encodeHeaderWithoutNonceToRLP\<close> encodes a list of
  thirteen values, and the full encoding encodes the same thirteen values in the same
  order followed by the mix digest and the nonce, and nothing else. The nonce-free
  encoding does not depend on the mix digest and the nonce: two headers that differ only
  there have the same nonce-free encoding. On the bytes, when the encoding succeeds (the
  two big integers are not negative): the payload of the full encoding is the payload of
  the nonce-free encoding followed by the encoded mix digest and the encoded nonce.
\<close>

theorem encodeHeaderWithoutNonce_prefix:
  "(\<exists>items. length items = 13 \<and>
      encodeHeaderWithoutNonceToRLP h = rlp_Encode items \<and>
      encodeHeaderToRLP h = rlp_Encode (items @ [ByteArray (MixDigest h), ByteArray (Nonce h)])) \<and>
   (\<forall>m n. encodeHeaderWithoutNonceToRLP (h\<lparr>MixDigest := m, Nonce := n\<rparr>)
            = encodeHeaderWithoutNonceToRLP h) \<and>
   (0 \<le> Difficulty h \<and> 0 \<le> Number h \<longrightarrow>
      (\<exists>payload. encodeHeaderWithoutNonceToRLP h = Inr (rlp_list payload) \<and>
         encodeHeaderToRLP h
           = Inr (rlp_list (payload @ rlp_string (MixDigest h) @ rlp_string (Nonce h)))))"
proof (intro conjI)
  show "\<exists>items. length items = 13 \<and>
      encodeHeaderWithoutNonceToRLP h = rlp_Encode items \<and>
      encodeHeaderToRLP h = rlp_Encode (items @ [ByteArray (MixDigest h), ByteArray (Nonce h)])"
    unfolding encodeHeaderWithoutNonceToRLP_def encodeHeaderToRLP_def
    by (rule exI[where x = "[ByteArray (ParentHash h), ByteArray (UncleHash h),
          ByteArray (Coinbase h), ByteArray (Root h), ByteArray (TxHash h),
          ByteArray (ReceiptHash h), ByteArray (Bloom h), BigInt (Difficulty h),
          BigInt (Number h), Uint64 (GasLimit h), Uint64 (GasUsed h), Uint64 (Time h),
          ByteSlice (Extra h)]"]) simp
  show "\<forall>m n. encodeHeaderWithoutNonceToRLP (h\<lparr>MixDigest := m, Nonce := n\<rparr>)
            = encodeHeaderWithoutNonceToRLP h"
    by (simp add: encodeHeaderWithoutNonceToRLP_def)
  show "0 \<le> Difficulty h \<and> 0 \<le> Number h \<longrightarrow>
      (\<exists>payload. encodeHeaderWithoutNonceToRLP h = Inr (rlp_list payload) \<and>
         encodeHeaderToRLP h
           = Inr (rlp_list (payload @ rlp_string (MixDigest h) @ rlp_string (Nonce h))))"
  proof (intro impI)
    assume nn: "0 \<le> Difficulty h \<and> 0 \<le> Number h"
    define P where "P = rlp_string (ParentHash h) @ rlp_string (UncleHash h) @
       rlp_string (Coinbase h) @ rlp_string (Root h) @ rlp_string (TxHash h) @
       rlp_string (ReceiptHash h) @ rlp_string (Bloom h) @
       rlp_string (be_enc (nat (Difficulty h))) @ rlp_string (be_enc (nat (Number h))) @
       rlp_string (be_enc (unat (GasLimit h))) @ rlp_string (be_enc (unat (GasUsed h))) @
       rlp_string (be_enc (unat (Time h))) @ rlp_string (Extra h)"
    have a: "encodeHeaderWithoutNonceToRLP h = Inr (rlp_list P)"
      using nn by (simp add: encodeHeaderWithoutNonceToRLP_def rlp_Encode_def P_def)
    have b: "encodeHeaderToRLP h
               = Inr (rlp_list (P @ rlp_string (MixDigest h) @ rlp_string (Nonce h)))"
      using nn by (simp add: encodeHeaderToRLP_def rlp_Encode_def P_def)
    from a b show "\<exists>payload. encodeHeaderWithoutNonceToRLP h = Inr (rlp_list payload) \<and>
         encodeHeaderToRLP h
           = Inr (rlp_list (payload @ rlp_string (MixDigest h) @ rlp_string (Nonce h)))"
      by blast
  qed
qed

theorem encodeHeaderWithoutNonce_prefix_witness:
  "0 \<le> Difficulty sample_header \<and> 0 \<le> Number sample_header \<and>
   (\<exists>payload. encodeHeaderWithoutNonceToRLP sample_header = Inr (rlp_list payload) \<and>
      encodeHeaderToRLP sample_header
        = Inr (rlp_list (payload @ rlp_string (MixDigest sample_header)
                           @ rlp_string (Nonce sample_header)))) \<and>
   encodeHeaderWithoutNonceToRLP (sample_header\<lparr>MixDigest := [], Nonce := [1]\<rparr>)
     = encodeHeaderWithoutNonceToRLP sample_header"
proof -
  have d: "0 \<le> Difficulty sample_header \<and> 0 \<le> Number sample_header"
    by (simp add: sample_header_def)
  show ?thesis using d encodeHeaderWithoutNonce_prefix[of sample_header] by blast
qed

section \<open>The event-replay locator\<close>

lemma scan_skip:
  "\<forall>e\<in>set pre. Raw_Data e \<noteq> h \<Longrightarrow>
     scanSubmitEvents chain h (pre @ rest) = scanSubmitEvents chain h rest"
  by (induction pre) auto

lemma scan_none:
  "\<forall>e\<in>set evs. Raw_Data e \<noteq> h \<Longrightarrow> scanSubmitEvents chain h evs = Inl (Returned NoSubmitEvent)"
  by (induction evs) auto

lemma unat_u64: "n < 2 ^ 64 \<Longrightarrow> unat (of_nat n :: uint64) = n"
  by (simp add: unat_of_nat)

lemma headerFromCalldata_inbounds:
  assumes sel: "take 4 d = submitSelector"
    and off: "off = be_dec (take 32 (drop 4 d))"
    and len: "len = be_dec (take 32 (drop (4 + off) d))"
    and inb: "4 + off + 32 + len \<le> length d"
    and sz: "length d < 2 ^ 64"
  shows "headerFromCalldata d = Inr (take len (drop (4 + off + 32) d))"
proof -
  have s1: "go_slice d 0 4 = Inr (take 4 d)"
    using inb by (simp add: go_slice_def)
  have s2: "go_slice d 4 (4 + 32) = Inr (take 32 (drop 4 d))"
    using inb by (simp add: go_slice_def)
  have p1: "(4 + of_nat off :: uint64) = of_nat (4 + off)" by simp
  have p2: "(4 + of_nat off + 32 :: uint64) = of_nat (4 + off + 32)" by simp
  have p3: "(4 + of_nat off + 32 + of_nat len :: uint64) = of_nat (4 + off + 32 + len)" by simp
  have u1: "unat (4 + of_nat off :: uint64) = 4 + off"
    unfolding p1 using inb sz by (intro unat_u64) simp
  have u2: "unat (4 + of_nat off + 32 :: uint64) = 4 + off + 32"
    unfolding p2 using inb sz by (intro unat_u64) simp
  have u3: "unat (4 + of_nat off + 32 + of_nat len :: uint64) = 4 + off + 32 + len"
    unfolding p3 using inb sz by (intro unat_u64) simp
  have s3: "go_slice d (4 + off) (4 + off + 32) = Inr (take 32 (drop (4 + off) d))"
    using inb by (simp add: go_slice_def)
  have s4: "go_slice d (4 + off + 32) (4 + off + 32 + len) = Inr (take len (drop (4 + off + 32) d))"
    using inb by (simp add: go_slice_def)
  show ?thesis
    unfolding headerFromCalldata_def s1 s2 sum.case Let_def off[symmetric] u1 u2 s3 len[symmetric] u3 s4
    using sel by simp
qed

text \<open>
  C4 (locator correctness). When the filter call succeeds: if no event of the log has the
  target block hash as its data, \<open>getRlpHeaderByTestimoniumSubmitEvent\<close> fails with the
  no-submission-found error. Otherwise the first event whose data equals the target
  hash decides, whatever comes before or after it: when its transaction is fetched and
  is not pending, its call data begins with the selector, and the region that the
  offset word at byte 4 and the length word at \<open>4 + offset\<close> designate lies inside the
  call data, the result is exactly the \<open>length\<close> bytes after the length word, that is
  the dynamic byte-array parameter of the call.
\<close>

theorem locator_correct:
  assumes "FilterSubmitHeader chain = Inr evs"
  shows "((\<forall>e\<in>set evs. Raw_Data e \<noteq> blockHash) \<longrightarrow>
            getRlpHeaderByTestimoniumSubmitEvent chain blockHash = Inl (Returned NoSubmitEvent)) \<and>
         (\<forall>pre ev post tx d off len.
            evs = pre @ ev # post \<and> (\<forall>e\<in>set pre. Raw_Data e \<noteq> blockHash) \<and>
            Raw_Data ev = blockHash \<and>
            TransactionByHash chain (Raw_TxHash ev) = Inr (tx, False) \<and>
            d = tx_Data tx \<and> take 4 d = submitSelector \<and>
            off = be_dec (take 32 (drop 4 d)) \<and>
            len = be_dec (take 32 (drop (4 + off) d)) \<and>
            4 + off + 32 + len \<le> length d \<and> length d < 2 ^ 64 \<longrightarrow>
            getRlpHeaderByTestimoniumSubmitEvent chain blockHash
              = Inr (take len (drop (4 + off + 32) d)))"
proof (intro conjI allI impI)
  assume "\<forall>e\<in>set evs. Raw_Data e \<noteq> blockHash"
  then show "getRlpHeaderByTestimoniumSubmitEvent chain blockHash = Inl (Returned NoSubmitEvent)"
    using assms by (simp add: getRlpHeaderByTestimoniumSubmitEvent_def scan_none)
next
  fix pre ev post tx d off len
  assume h: "evs = pre @ ev # post \<and> (\<forall>e\<in>set pre. Raw_Data e \<noteq> blockHash) \<and>
            Raw_Data ev = blockHash \<and>
            TransactionByHash chain (Raw_TxHash ev) = Inr (tx, False) \<and>
            d = tx_Data tx \<and> take 4 d = submitSelector \<and>
            off = be_dec (take 32 (drop 4 d)) \<and>
            len = be_dec (take 32 (drop (4 + off) d)) \<and>
            4 + off + 32 + len \<le> length d \<and> length d < 2 ^ 64"
  then have evs: "evs = pre @ ev # post" and pre: "\<forall>e\<in>set pre. Raw_Data e \<noteq> blockHash"
    and ev: "Raw_Data ev = blockHash"
    and tx: "TransactionByHash chain (Raw_TxHash ev) = Inr (tx, False)"
    and d: "d = tx_Data tx" and sel: "take 4 d = submitSelector"
    and off: "off = be_dec (take 32 (drop 4 d))"
    and len: "len = be_dec (take 32 (drop (4 + off) d))"
    and inb: "4 + off + 32 + len \<le> length d" and sz: "length d < 2 ^ 64"
    by blast+
  have skip: "scanSubmitEvents chain blockHash evs
                = scanSubmitEvents chain blockHash (ev # post)"
    unfolding evs using pre by (rule scan_skip)
  have hc: "headerFromCalldata d = Inr (take len (drop (4 + off + 32) d))"
    using sel off len inb sz by (rule headerFromCalldata_inbounds)
  have "scanSubmitEvents chain blockHash (ev # post) = headerFromCalldata d"
    using ev tx d by simp
  then show "getRlpHeaderByTestimoniumSubmitEvent chain blockHash
              = Inr (take len (drop (4 + off + 32) d))"
    using assms skip hc by (simp add: getRlpHeaderByTestimoniumSubmitEvent_def)
qed

lemma be_dec_zeros: "be_dec (replicate k 0 @ xs) = be_dec xs"
  by (induction k) (simp_all add: be_dec_def)


lemma abi_word_32: "abi_word 32 = replicate 31 0 @ [32]"
  by (simp add: abi_word_def be_enc.simps)

lemma length_abi_word: "n < 2 ^ 256 \<Longrightarrow> length (abi_word n) = 32"
proof -
  assume "n < 2 ^ 256"
  then have "n < 256 ^ 32" by simp
  then have "length (be_enc n) \<le> 32" by (rule length_be_enc)
  then show ?thesis by (simp add: abi_word_def)
qed

lemma be_dec_abi_word: "be_dec (abi_word n) = n"
  by (simp add: abi_word_def be_dec_zeros be_dec_be_enc)

lemma headerFromCalldata_wellformed:
  assumes d: "d = submitSelector @ abi_word 32 @ abi_word (length payload) @ payload @ pad"
    and sz: "length d < 2 ^ 64"
  shows "headerFromCalldata d = Inr payload"
proof -
  have lp: "length payload < 2 ^ 256"
  proof -
    have "length payload \<le> length d" by (simp add: d)
    then have "length payload < 2 ^ 64" using sz by simp
    also have "(2::nat) ^ 64 < 2 ^ 256" by simp
    finally show ?thesis .
  qed
  have l1: "length (abi_word 32) = 32" by (rule length_abi_word) simp
  have l2: "length (abi_word (length payload)) = 32" using lp by (rule length_abi_word)
  have l0: "length submitSelector = 4" by (simp add: submitSelector_def)
  have t4: "take 4 d = submitSelector" by (simp add: d l0)
  have off: "32 = be_dec (take 32 (drop 4 d))"
    by (simp add: d l0 l1 be_dec_abi_word)
  have len: "length payload = be_dec (take 32 (drop (4 + 32) d))"
    by (simp add: d l0 l1 l2 be_dec_abi_word)
  have inb: "4 + 32 + 32 + length payload \<le> length d"
    by (simp add: d l0 l1 l2)
  have "headerFromCalldata d = Inr (take (length payload) (drop (4 + 32 + 32) d))"
    using t4 off len inb sz by (rule headerFromCalldata_inbounds)
  then show ?thesis by (simp add: d l0 l1 l2)
qed

lemma wrap32:
  fixes x :: uint64
  assumes "unat x \<le> unat (x + 32)"
  shows "unat (x + 32) - unat x = 32"
proof -
  have e: "unat (x + 32) = (unat x + 32) mod 2 ^ 64"
    by (simp add: unat_word_ariths)
  have b: "unat x < 2 ^ 64" using unsigned_less[of x] by simp
  show ?thesis
  proof (cases "unat x + 32 < 2 ^ 64")
    case True
    then show ?thesis using e by simp
  next
    case False
    then have "(unat x + 32) mod 2 ^ 64 = unat x + 32 - 2 ^ 64"
      using b by (simp add: mod_if)
    then have "unat (x + 32) < unat x" using e b False by simp
    then show ?thesis using assms by simp
  qed
qed

lemma go_slice_32:
  fixes x :: uint64
  shows "go_slice d (unat x) (unat (x + 32))
           = (if unat x \<le> unat (x + 32) \<and> unat (x + 32) \<le> length d
              then Inr (take 32 (drop (unat x) d)) else Inl Panic)"
  using wrap32[of x] by (simp add: go_slice_def)

lemma headerFromCalldata_Panic_iff:
  "(let position = (of_nat (be_dec (take 32 (drop 4 d))) :: uint64);
        a = unat (4 + position); b = unat (4 + position + 32);
        len = (of_nat (be_dec (take 32 (drop a d))) :: uint64);
        e = unat (4 + position + 32 + len)
    in (headerFromCalldata d = Inl Panic \<longleftrightarrow>
          length d < 4 \<or>
          (take 4 d = submitSelector \<and>
             (length d < 36 \<or> \<not> (a \<le> b \<and> b \<le> length d) \<or> \<not> (b \<le> e \<and> e \<le> length d)))))"
proof -
  have s1: "go_slice d 0 4 = (if 4 \<le> length d then Inr (take 4 d) else Inl Panic)"
    by (simp add: go_slice_def)
  have s2: "go_slice d 4 (4 + 32) = (if 36 \<le> length d then Inr (take 32 (drop 4 d)) else Inl Panic)"
    by (simp add: go_slice_def)
  show ?thesis
    unfolding headerFromCalldata_def s1 s2 Let_def go_slice_32
    by (simp add: go_slice_def not_le not_less)
qed

lemma headerFromCalldata_mismatch:
  "4 \<le> length d \<Longrightarrow> take 4 d \<noteq> submitSelector \<Longrightarrow>
     headerFromCalldata d = Inl (Returned SignatureMismatch)"
  by (simp add: headerFromCalldata_def go_slice_def)

theorem locator_correct_witness:
  "FilterSubmitHeader (one_event_chain [7] sample_calldata)
     = Inr [\<lparr>Raw_Data = [7], Raw_TxHash = [0xaa]\<rparr>] \<and>
   getRlpHeaderByTestimoniumSubmitEvent (one_event_chain [7] sample_calldata) [7] = Inr [1, 2, 3] \<and>
   getRlpHeaderByTestimoniumSubmitEvent (one_event_chain [7] sample_calldata) [8]
     = Inl (Returned NoSubmitEvent)"
proof -
  let ?ch = "one_event_chain [7] sample_calldata"
  let ?ev = "\<lparr>Raw_Data = [7], Raw_TxHash = [0xaa]\<rparr>"
  let ?tx = "\<lparr>tx_Hash = [0xaa], tx_Data = sample_calldata, tx_Rlp = []\<rparr>"
  have f: "FilterSubmitHeader ?ch = Inr [?ev]"
    by (simp add: one_event_chain_def)
  have t: "TransactionByHash ?ch (Raw_TxHash ?ev) = Inr (?tx, False)"
    by (simp add: one_event_chain_def)
  have c1: "take 4 sample_calldata = submitSelector" by code_simp
  have c2: "be_dec (take 32 (drop 4 sample_calldata)) = 32" by code_simp
  have c3: "be_dec (take 32 (drop (4 + 32) sample_calldata)) = 3" by code_simp
  have c4: "length sample_calldata = 100" by code_simp
  have c5: "take 3 (drop (4 + 32 + 32) sample_calldata) = [1, 2, 3]" by code_simp
  have a: "getRlpHeaderByTestimoniumSubmitEvent ?ch [8] = Inl (Returned NoSubmitEvent)"
    using locator_correct[OF f, of "[8]"] by simp
  have "[?ev] = [] @ ?ev # [] \<and> (\<forall>e\<in>set []. Raw_Data e \<noteq> [7]) \<and>
            Raw_Data ?ev = [7] \<and>
            TransactionByHash ?ch (Raw_TxHash ?ev) = Inr (?tx, False) \<and>
            sample_calldata = tx_Data ?tx \<and> take 4 sample_calldata = submitSelector \<and>
            32 = be_dec (take 32 (drop 4 sample_calldata)) \<and>
            3 = be_dec (take 32 (drop (4 + 32) sample_calldata)) \<and>
            4 + 32 + 32 + 3 \<le> length sample_calldata \<and> length sample_calldata < 2 ^ 64"
    using t c1 c2 c3 c4 by simp
  then have "getRlpHeaderByTestimoniumSubmitEvent ?ch [7]
               = Inr (take 3 (drop (4 + 32 + 32) sample_calldata))"
    using locator_correct[OF f, of "[7]"] by blast
  then have b: "getRlpHeaderByTestimoniumSubmitEvent ?ch [7] = Inr [1, 2, 3]"
    using c5 by simp
  from f a b show ?thesis by simp
qed

text \<open>
  C10 (slicing the call data), as the code has it. The claim as stated fails: a
  matching event whose call data is shorter than 36 bytes but at least 4 bytes long
  with another selector gives the signature-mismatch error, not a panic; and slices can
  all be in bounds for call data that is not a well-formed encoding (an offset word of
  zero makes the offset word its own length word). What holds, for the first matching
  event whose transaction is fetched and not pending: the function panics exactly when
  the call data is shorter than 4 bytes, or it begins with the selector and is shorter
  than 36 bytes or one of the two computed slices is out of range, the bounds being
  computed in 64-bit arithmetic from the low 64 bits of the offset and length words; a
  call data of at least 4 bytes with another selector gives the signature-mismatch
  error; and for a well-formed encoding (the selector, the offset word 32, the length
  word, the bytes, any padding) every slice is in bounds and the bytes are returned.
\<close>

theorem calldata_slicing:
  assumes "FilterSubmitHeader chain = Inr (pre @ ev # post)"
    and "\<forall>e\<in>set pre. Raw_Data e \<noteq> blockHash"
    and "Raw_Data ev = blockHash"
    and "TransactionByHash chain (Raw_TxHash ev) = Inr (tx, False)"
  shows "(let d = tx_Data tx;
              position = (of_nat (be_dec (take 32 (drop 4 d))) :: uint64);
              a = unat (4 + position); b = unat (4 + position + 32);
              len = (of_nat (be_dec (take 32 (drop a d))) :: uint64);
              e = unat (4 + position + 32 + len);
              r = getRlpHeaderByTestimoniumSubmitEvent chain blockHash
          in (r = Inl Panic \<longleftrightarrow>
                length d < 4 \<or>
                (take 4 d = submitSelector \<and>
                   (length d < 36 \<or> \<not> (a \<le> b \<and> b \<le> length d) \<or>
                    \<not> (b \<le> e \<and> e \<le> length d)))) \<and>
             (4 \<le> length d \<and> take 4 d \<noteq> submitSelector \<longrightarrow>
                r = Inl (Returned SignatureMismatch)) \<and>
             (\<forall>payload pad.
                d = submitSelector @ abi_word 32 @ abi_word (length payload) @ payload @ pad \<and>
                length d < 2 ^ 64 \<longrightarrow> r = Inr payload))"
proof -
  have skip: "scanSubmitEvents chain blockHash (pre @ ev # post)
                = scanSubmitEvents chain blockHash (ev # post)"
    using assms(2) by (rule scan_skip)
  have r: "getRlpHeaderByTestimoniumSubmitEvent chain blockHash = headerFromCalldata (tx_Data tx)"
    using assms skip by (simp add: getRlpHeaderByTestimoniumSubmitEvent_def)
  note P = headerFromCalldata_Panic_iff[of "tx_Data tx", unfolded Let_def]
  show ?thesis
    unfolding Let_def r
    apply (intro conjI)
      apply (rule P)
     apply (intro impI, erule conjE, erule (1) headerFromCalldata_mismatch)
    apply (intro allI impI, erule conjE, erule (1) headerFromCalldata_wellformed)
    done
qed

theorem calldata_slicing_witness:
  "FilterSubmitHeader (one_event_chain [7] sample_calldata)
     = Inr ([] @ \<lparr>Raw_Data = [7], Raw_TxHash = [0xaa]\<rparr> # []) \<and>
   sample_calldata = submitSelector @ abi_word 32 @ abi_word (length [1, 2, 3 :: byte])
                       @ [1, 2, 3] @ replicate 29 0 \<and>
   getRlpHeaderByTestimoniumSubmitEvent (one_event_chain [7] sample_calldata) [7] = Inr [1, 2, 3]"
proof -
  let ?ch = "one_event_chain [7] sample_calldata"
  let ?ev = "\<lparr>Raw_Data = [7], Raw_TxHash = [0xaa]\<rparr>"
  let ?tx = "\<lparr>tx_Hash = [0xaa], tx_Data = sample_calldata, tx_Rlp = []\<rparr>"
  have f: "FilterSubmitHeader ?ch = Inr ([] @ ?ev # [])"
    by (simp add: one_event_chain_def)
  have p: "\<forall>e\<in>set []. Raw_Data e \<noteq> [7 :: byte]" by simp
  have m: "Raw_Data ?ev = [7]" by simp
  have t: "TransactionByHash ?ch (Raw_TxHash ?ev) = Inr (?tx, False)"
    by (simp add: one_event_chain_def)
  have d: "sample_calldata = submitSelector @ abi_word 32 @ abi_word (length [1, 2, 3 :: byte])
                       @ [1, 2, 3] @ replicate 29 0"
    by code_simp
  have c4: "length sample_calldata = 100" by code_simp
  have sel: "tx_Data ?tx = sample_calldata" by simp
  have pre: "tx_Data ?tx = submitSelector @ abi_word 32 @ abi_word (length [1, 2, 3 :: byte])
                       @ [1, 2, 3] @ replicate 29 0 \<and> length (tx_Data ?tx) < 2 ^ 64"
    unfolding sel using d c4 by simp
  note T = calldata_slicing[OF f p m t, unfolded Let_def]
  from T pre have "getRlpHeaderByTestimoniumSubmitEvent ?ch [7] = Inr [1, 2, 3]"
    by blast
  with f d show ?thesis by blast
qed

text \<open>
  The counterexample to C10 as stated: four zero bytes of call data give a typed error,
  and the selector followed by a zero word is sliced in bounds and gives the empty string.
\<close>

theorem calldata_slicing_counterexample:
  "length [0, 0, 0, 0 :: byte] < 36 \<and>
   getRlpHeaderByTestimoniumSubmitEvent (one_event_chain [7] [0, 0, 0, 0]) [7]
     = Inl (Returned SignatureMismatch) \<and>
   submitSelector @ replicate 32 0 \<noteq> submitSelector @ abi_word 32 @ abi_word 0 \<and>
   getRlpHeaderByTestimoniumSubmitEvent (one_event_chain [7] (submitSelector @ replicate 32 0)) [7]
     = Inr []"
  by code_simp

section \<open>Disputing a block\<close>

lemma dec_array_length: "dec_array n bs = Some (c, r) \<Longrightarrow> length c = n"
  by (auto simp add: dec_array_def split: option.splits if_splits)

lemma dec_bigint_nonneg: "dec_bigint bs = Some (i, r) \<Longrightarrow> 0 \<le> i"
  by (auto simp add: dec_bigint_def split: option.splits if_splits)

lemma dec_header_fields_facts:
  assumes "dec_header_fields c = Some (h, r)"
  shows "0 \<le> Number h \<and> length (Nonce h) = 8"
  using assms unfolding dec_header_fields_def
  apply (auto split: bind_splits)
   apply (rule dec_bigint_nonneg, assumption)
  apply (rule dec_array_length, assumption)
  done

lemma decodeHeaderFromRLP_facts:
  assumes "decodeHeaderFromRLP bs = Inr h"
  shows "0 \<le> Number h \<and> length (Nonce h) = 8"
proof -
  from assms obtain c r where "dec_header_fields c = Some (h, r)"
    by (auto simp add: decodeHeaderFromRLP_def
        split: option.splits prod.splits rlp_kind.splits list.splits)
  then show ?thesis by (rule dec_header_fields_facts)
qed

lemma copy32_digest: "length d = 32 \<Longrightarrow> copy32 d = d"
  by (simp add: copy32_def)

lemma be_dec_bound: "be_dec bs < 256 ^ length bs"
proof (induction bs rule: rev_induct)
  case Nil
  then show ?case by (simp add: be_dec_def)
next
  case (snoc b bs)
  have "unat b < 256" using unsigned_less[of b] by simp
  then have "be_dec bs * 256 + unat b < (be_dec bs + 1) * 256" by simp
  also have "\<dots> \<le> 256 ^ length bs * 256"
    using snoc.IH by (intro mult_le_mono1) simp
  finally show ?case by (simp add: be_dec_snoc)
qed

lemma unat_nonce_Uint64: "length n = 8 \<Longrightarrow> unat (nonce_Uint64 n) = be_dec n"
proof -
  assume "length n = 8"
  then have "be_dec n < 256 ^ 8" using be_dec_bound[of n] by simp
  then have "be_dec n < 2 ^ 64" by simp
  then show ?thesis unfolding nonce_Uint64_def by (rule unat_u64)
qed

lemma uint_big_Uint64: "0 \<le> x \<Longrightarrow> x < 2 ^ 64 \<Longrightarrow> uint (big_Uint64 x) = x"
proof -
  assume a: "0 \<le> x" "x < 2 ^ 64"
  then have "nat x < 2 ^ 64" by (simp add: nat_less_iff)
  then have "unat (of_nat (nat x) :: uint64) = nat x" by (rule unat_u64)
  then have "uint (of_nat (nat x) :: uint64) = int (nat x)" by (simp add: uint_nat)
  then show ?thesis using a by (simp add: big_Uint64_def)
qed

lemma uint_big_Uint64_mod:
  assumes "0 \<le> x"
  shows "uint (big_Uint64 x) = x mod 2 ^ 64"
proof -
  have u: "unat (of_nat (nat x) :: uint64) = nat x mod 2 ^ 64"
    by (simp add: unat_of_nat)
  have "uint (of_nat (nat x) :: uint64) = int (unat (of_nat (nat x) :: uint64))"
    by (rule uint_nat)
  also have "\<dots> = int (nat x mod 2 ^ 64)" by (simp only: u)
  also have "\<dots> = int (nat x) mod 2 ^ 64" by (simp add: zmod_int)
  finally show ?thesis using assms by (simp add: big_Uint64_def)
qed

lemma DisputeBlock_sent:
  assumes ch: "chains c chain = Some ch"
    and hdr: "getRlpHeaderByTestimoniumSubmitEvent ch blockHash = Inr rlpHeader"
    and dec: "decodeHeaderFromRLP rlpHeader = Inr header"
    and enc: "encodeHeaderWithoutNonceToRLP header = Inr withoutNonce"
    and dig: "length (Keccak256 lib withoutNonce) = 32"
    and par: "getRlpHeaderByTestimoniumSubmitEvent ch (ParentHash header) = Inr rlpParent"
    and auth: "prepareTransaction ch 0 = Inr opts"
    and meta: "meta = NewBlockMetaData lib (big_Uint64 (Number header))
                        (nonce_Uint64 (Nonce header)) (Keccak256 lib withoutNonce)"
    and call: "call = \<lparr>dispute_rlpHeader = rlpHeader, dispute_rlpParent = rlpParent,
                        dispute_dataSetLookUp = DAGElementArray lib meta,
                        dispute_witnessForLookup = DAGProofArray lib meta\<rparr>"
    and snd: "DisputeBlockHeader ch call = Inr tx"
  shows "DisputeBlock sp lib c blockHash chain = DisputeSent call (afterDispute sp ch tx)"
  using ch hdr dec enc par auth snd
  by (simp add: DisputeBlock_def Let_def copy32_digest[OF dig] meta call)

text \<open>
  C6 (the arguments of the dispute), as the code has it. The claim as stated fails for a
  header whose number is \<open>2^64\<close> or more, which decodes like any other: the collaborator
  is not called with the header's number but with \<^verbatim>\<open>Number.Uint64()\<close>, its low 64 bits.
  What holds: when \<open>DisputeBlock\<close> gets as far as sending the dispute transaction (the
  submitted header is found and decodes, its nonce-free encoding succeeds, the parent's
  submission is found, the transaction options are prepared and the contract call is
  accepted), the pre-PoW hash is the Keccak-256 digest of the nonce-free encoding of the
  decoded header, the PoW-dataset collaborator is called with the triple of the header's
  number modulo \<open>2^64\<close>, the header's nonce and that hash, and the transaction carries the
  collaborator's dataset-element array and witness array as they are, beside the encoded
  header and the encoded parent. The nonce is the eight bytes read big-endian; the
  number that reaches the collaborator is the header's number exactly when that is below
  \<open>2^64\<close>.
\<close>

theorem dispute_arguments:
  assumes ch: "chains c chain = Some ch"
    and hdr: "getRlpHeaderByTestimoniumSubmitEvent ch blockHash = Inr rlpHeader"
    and dec: "decodeHeaderFromRLP rlpHeader = Inr header"
    and enc: "encodeHeaderWithoutNonceToRLP header = Inr withoutNonce"
    and dig: "length (Keccak256 lib withoutNonce) = 32"
    and par: "getRlpHeaderByTestimoniumSubmitEvent ch (ParentHash header) = Inr rlpParent"
    and auth: "prepareTransaction ch 0 = Inr opts"
    and meta: "meta = NewBlockMetaData lib (big_Uint64 (Number header))
                        (nonce_Uint64 (Nonce header)) (Keccak256 lib withoutNonce)"
    and call: "call = \<lparr>dispute_rlpHeader = rlpHeader, dispute_rlpParent = rlpParent,
                        dispute_dataSetLookUp = DAGElementArray lib meta,
                        dispute_witnessForLookup = DAGProofArray lib meta\<rparr>"
    and snd: "DisputeBlockHeader ch call = Inr tx"
  shows "DisputeBlock sp lib c blockHash chain = DisputeSent call (afterDispute sp ch tx) \<and>
         unat (nonce_Uint64 (Nonce header)) = be_dec (Nonce header) \<and>
         uint (big_Uint64 (Number header)) = Number header mod 2 ^ 64 \<and>
         (uint (big_Uint64 (Number header)) = Number header \<longleftrightarrow> Number header < 2 ^ 64)"
proof (intro conjI)
  show "DisputeBlock sp lib c blockHash chain = DisputeSent call (afterDispute sp ch tx)"
    using ch hdr dec enc par auth snd
    by (simp add: DisputeBlock_def Let_def copy32_digest[OF dig] meta call)
  show "unat (nonce_Uint64 (Nonce header)) = be_dec (Nonce header)"
    using decodeHeaderFromRLP_facts[OF dec] by (simp add: unat_nonce_Uint64)
  have nn: "0 \<le> Number header"
    using decodeHeaderFromRLP_facts[OF dec] by simp
  then show m: "uint (big_Uint64 (Number header)) = Number header mod 2 ^ 64"
    by (rule uint_big_Uint64_mod)
  show "uint (big_Uint64 (Number header)) = Number header \<longleftrightarrow> Number header < 2 ^ 64"
  proof
    assume "uint (big_Uint64 (Number header)) = Number header"
    then have "Number header = Number header mod 2 ^ 64" using m by simp
    moreover have "Number header mod 2 ^ 64 < 2 ^ 64" by simp
    ultimately show "Number header < 2 ^ 64" by simp
  next
    assume "Number header < 2 ^ 64"
    then show "uint (big_Uint64 (Number header)) = Number header"
      using m nn by simp
  qed
qed

lemma sample_header_valid: "valid_header sample_header"
  by (simp add: valid_header_def sample_header_def)

lemma length_sample_header_calldata: "length sample_header_calldata < 2 ^ 64"
proof -
  have p: "length (header_payload sample_header) \<le> 2 ^ 32 + 1000"
    using sample_header_valid by (rule length_header_payload_le)
  then have "length (header_payload sample_header) < 2 ^ 64" by simp
  then have "length (rlp_list (header_payload sample_header))
               \<le> length (header_payload sample_header) + 9"
    by (rule length_rlp_list)
  then have b: "length sample_header_bytes \<le> 2 ^ 32 + 1009"
    using p by (simp add: sample_header_bytes_def)
  have l1: "length (abi_word 32) = 32" by (rule length_abi_word) simp
  have "length sample_header_bytes < 2 ^ 256"
  proof -
    have "length sample_header_bytes < 2 ^ 64" using b by simp
    also have "(2::nat) ^ 64 < 2 ^ 256" by simp
    finally show ?thesis .
  qed
  then have l2: "length (abi_word (length sample_header_bytes)) = 32"
    by (rule length_abi_word)
  have "(32 - length sample_header_bytes mod 32) mod 32 < 32" by simp
  then show ?thesis
    using b l1 l2 by (simp add: sample_header_calldata_def submitSelector_def)
qed

theorem dispute_arguments_witness:
  "DisputeBlock verbatim_Sprintf recording_lib sample_client [7] 1
     = DisputeSent
         \<lparr>dispute_rlpHeader = sample_header_bytes, dispute_rlpParent = [1, 2, 3],
          dispute_dataSetLookUp = [100, 66],
          dispute_witnessForLookup = replicate 32 153\<rparr>
         (TxSuccessful [] [])"
proof -
  let ?tx = "\<lparr>tx_Hash = [3], tx_Data = [], tx_Rlp = []\<rparr>"
  have ch: "chains sample_client 1 = Some accepting_chain"
    by (simp add: sample_client_def)
  have wf: "headerFromCalldata sample_header_calldata = Inr sample_header_bytes"
    using _ length_sample_header_calldata
    by (rule headerFromCalldata_wellformed) (simp add: sample_header_calldata_def)
  have hdr: "getRlpHeaderByTestimoniumSubmitEvent accepting_chain [7] = Inr sample_header_bytes"
    using wf by (simp add: getRlpHeaderByTestimoniumSubmitEvent_def accepting_chain_def)
  have dec: "decodeHeaderFromRLP sample_header_bytes = Inr sample_header"
    unfolding sample_header_bytes_def using sample_header_valid by (rule decodeHeader_payload)
  obtain w where enc: "encodeHeaderWithoutNonceToRLP sample_header = Inr w"
    by (simp add: encodeHeaderWithoutNonceToRLP_def rlp_Encode_def sample_header_def)
  have dig: "length (Keccak256 recording_lib w) = 32"
    by (simp add: recording_lib_def)
  have par: "getRlpHeaderByTestimoniumSubmitEvent accepting_chain (ParentHash sample_header)
               = Inr [1, 2, 3]"
    by code_simp
  have auth: "prepareTransaction accepting_chain 0
                = Inr \<lparr>auth_Nonce = 5, auth_Value = 0, auth_GasPrice = 1\<rparr>"
    by (simp add: prepareTransaction_def accepting_chain_def)
  have snd: "DisputeBlockHeader accepting_chain c = Inr ?tx" for c
    by (simp add: accepting_chain_def)
  have aft: "afterDispute sp accepting_chain ?tx = TxSuccessful [] []" for sp
    by (simp add: afterDispute_def accepting_chain_def)
  have n: "uint (big_Uint64 (Number sample_header)) = 100"
    by (simp add: sample_header_def big_Uint64_def)
  have k: "uint (nonce_Uint64 (Nonce sample_header)) = 66"
    by (simp add: sample_header_def nonce_Uint64_def be_dec_def)
  show ?thesis
    using dispute_arguments[OF ch hdr dec enc dig par auth refl refl snd] aft n k
    by (simp add: recording_lib_def)
qed

lemma big_Uint64_huge: "big_Uint64 18446744073709551716 = 100"
proof -
  have "uint (big_Uint64 18446744073709551716) = 18446744073709551716 mod 2 ^ 64"
    by (rule uint_big_Uint64_mod) simp
  also have "\<dots> = 100" by simp
  finally have "uint (big_Uint64 18446744073709551716) = uint (100 :: uint64)" by simp
  then show ?thesis by (simp only: word_uint_eq_iff)
qed

lemma huge_number_header_valid: "valid_header huge_number_header"
  by (simp add: valid_header_def huge_number_header_def sample_header_def)

lemma length_huge_number_calldata: "length huge_number_calldata < 2 ^ 64"
proof -
  have p: "length (header_payload huge_number_header) \<le> 2 ^ 32 + 1000"
    using huge_number_header_valid by (rule length_header_payload_le)
  then have "length (header_payload huge_number_header) < 2 ^ 64" by simp
  then have "length (rlp_list (header_payload huge_number_header))
               \<le> length (header_payload huge_number_header) + 9"
    by (rule length_rlp_list)
  then have b: "length huge_number_bytes \<le> 2 ^ 32 + 1009"
    using p by (simp add: huge_number_bytes_def)
  have l1: "length (abi_word 32) = 32" by (rule length_abi_word) simp
  have "length huge_number_bytes < 2 ^ 256"
  proof -
    have "length huge_number_bytes < 2 ^ 64" using b by simp
    also have "(2::nat) ^ 64 < 2 ^ 256" by simp
    finally show ?thesis .
  qed
  then have l2: "length (abi_word (length huge_number_bytes)) = 32"
    by (rule length_abi_word)
  have "(32 - length huge_number_bytes mod 32) mod 32 < 32" by simp
  then show ?thesis
    using b l1 l2 by (simp add: huge_number_calldata_def submitSelector_def)
qed

text \<open>
  The claim of C6 at a header whose number is \<open>2^64 + 100\<close>: the header decodes from
  the submitted bytes, the dispute is sent, and the collaborator has been called with
  the number 100 (the recording library reads the number and the nonce it was called
  with back in its first array).
\<close>

theorem dispute_number_counterexample:
  "decodeHeaderFromRLP huge_number_bytes = Inr huge_number_header \<and>
   Number huge_number_header = 2 ^ 64 + 100 \<and>
   big_Uint64 (Number huge_number_header) = 100 \<and>
   DisputeBlock verbatim_Sprintf recording_lib huge_number_client [7] 1
     = DisputeSent
         \<lparr>dispute_rlpHeader = huge_number_bytes, dispute_rlpParent = [1, 2, 3],
          dispute_dataSetLookUp = [100, 66],
          dispute_witnessForLookup = replicate 32 153\<rparr>
         (TxSuccessful [] [])"
proof -
  let ?tx = "\<lparr>tx_Hash = [3], tx_Data = [], tx_Rlp = []\<rparr>"
  have ch: "chains huge_number_client 1 = Some huge_number_chain"
    by (simp add: huge_number_client_def)
  have wf: "headerFromCalldata huge_number_calldata = Inr huge_number_bytes"
    using _ length_huge_number_calldata
    by (rule headerFromCalldata_wellformed) (simp add: huge_number_calldata_def)
  have hdr: "getRlpHeaderByTestimoniumSubmitEvent huge_number_chain [7] = Inr huge_number_bytes"
    using wf
    by (simp add: getRlpHeaderByTestimoniumSubmitEvent_def huge_number_chain_def
        accepting_chain_def)
  have dec: "decodeHeaderFromRLP huge_number_bytes = Inr huge_number_header"
    unfolding huge_number_bytes_def using huge_number_header_valid
    by (rule decodeHeader_payload)
  obtain w where enc: "encodeHeaderWithoutNonceToRLP huge_number_header = Inr w"
    by (simp add: encodeHeaderWithoutNonceToRLP_def rlp_Encode_def huge_number_header_def
        sample_header_def)
  have dig: "length (Keccak256 recording_lib w) = 32"
    by (simp add: recording_lib_def)
  have par: "getRlpHeaderByTestimoniumSubmitEvent huge_number_chain
               (ParentHash huge_number_header) = Inr [1, 2, 3]"
    by code_simp
  have auth: "prepareTransaction huge_number_chain 0
                = Inr \<lparr>auth_Nonce = 5, auth_Value = 0, auth_GasPrice = 1\<rparr>"
    by (simp add: prepareTransaction_def huge_number_chain_def accepting_chain_def)
  have snd: "DisputeBlockHeader huge_number_chain c = Inr ?tx" for c
    by (simp add: huge_number_chain_def accepting_chain_def)
  have aft: "afterDispute sp huge_number_chain ?tx = TxSuccessful [] []" for sp
    by (simp add: afterDispute_def huge_number_chain_def accepting_chain_def)
  have num: "Number huge_number_header = 18446744073709551716"
    by (simp add: huge_number_header_def)
  have n: "big_Uint64 (Number huge_number_header) = 100"
    unfolding num by (rule big_Uint64_huge)
  have k: "uint (nonce_Uint64 (Nonce huge_number_header)) = 66"
    by (simp add: huge_number_header_def sample_header_def nonce_Uint64_def be_dec_def)
  have d: "DisputeBlock verbatim_Sprintf recording_lib huge_number_client [7] 1
     = DisputeSent
         \<lparr>dispute_rlpHeader = huge_number_bytes, dispute_rlpParent = [1, 2, 3],
          dispute_dataSetLookUp = [100, 66],
          dispute_witnessForLookup = replicate 32 153\<rparr>
         (TxSuccessful [] [])"
    using DisputeBlock_sent[OF ch hdr dec enc dig par auth refl refl snd] aft n k
    by (simp add: recording_lib_def)
  show ?thesis using dec num n d by simp
qed

section \<open>Submitting epoch data\<close>

lemma epochLoop_prefix:
  assumes "cnt = k + length rest" "length nodes < 40" "k = 40 * j + length nodes"
    "start = int (40 * j)" "rest = [] \<longrightarrow> nodes = []"
  shows "prefix (fst (epochLoop sp ch ed cnt k rest nodes start)) (expectedBatches ed j (nodes @ rest))"
  using assms
proof (induction rest arbitrary: k nodes j start)
  case Nil
  then show ?case by simp
next
  case (Cons n rest)
  let ?nodes = "nodes @ [n]"
  let ?E = "expectedBatches ed j (nodes @ n # rest)"
  show ?case
  proof (cases "length ?nodes = 40 \<or> int k = int cnt - 1")
    case flush: True
    have last: "rest = [] \<longleftrightarrow> int k = int cnt - 1" using Cons.prems(1) by auto
    have tk: "take 40 (nodes @ n # rest) = ?nodes"
      using flush last Cons.prems(2) by auto
    have dr: "drop 40 (nodes @ n # rest) = rest"
      using flush last Cons.prems(2) by auto
    have li: "40 * j + length ?nodes - 1 = k" using Cons.prems(3) by simp
    define call where "call = \<lparr>sed_epoch = Epoch ed,
                sed_fullSizeIn128Resolution = FullSizeIn128Resolution ed,
                sed_branchDepth = BranchDepth ed,
                sed_nodes = ?nodes, sed_start = start,
                sed_mnlen = int (length ?nodes)\<rparr>"
    have E: "?E = (if big_Uint64 (Epoch ed) = 128 \<and> k < 440 then [] else [call])
                   @ expectedBatches ed (Suc j) rest"
      using Cons.prems(3)
      by (subst expectedBatches.simps) (simp add: tk dr Let_def call_def Cons.prems(4) del: take_append drop_append)
    have IH: "prefix (fst (epochLoop sp ch ed cnt (Suc k) rest [] (start + int (length ?nodes))))
                (expectedBatches ed (Suc j) rest)"
    proof (cases "rest = []")
      case True
      then show ?thesis by simp
    next
      case False
      then have l40: "length ?nodes = 40" using flush last by simp
      have "prefix (fst (epochLoop sp ch ed cnt (Suc k) rest [] (start + int (length ?nodes))))
                (expectedBatches ed (Suc j) ([] @ rest))"
        using Cons.prems l40 by (intro Cons.IH) simp_all
      then show ?thesis by simp
    qed
    show ?thesis
      unfolding E using flush IH
      by (auto simp add: Let_def call_def split: sum.splits prod.splits)
  next
    case noflush: False
    then have ne: "rest \<noteq> []" using Cons.prems(1) by auto
    have "prefix (fst (epochLoop sp ch ed cnt (Suc k) rest ?nodes start))
            (expectedBatches ed j (?nodes @ rest))"
      using Cons.prems noflush ne by (intro Cons.IH) simp_all
    then show ?thesis using noflush by (simp add: Let_def)
  qed
qed

lemma epochLoop_all:
  assumes ok: "submissionsSucceed ch"
    and "cnt = k + length rest" "length nodes < 40" "k = 40 * j + length nodes"
    "start = int (40 * j)" "rest = [] \<longrightarrow> nodes = []"
  shows "epochLoop sp ch ed cnt k rest nodes start = (expectedBatches ed j (nodes @ rest), EpochDone)"
  using assms(2-)
proof (induction rest arbitrary: k nodes j start)
  case Nil
  then show ?case by (simp add: expectedBatches.simps)
next
  case (Cons n rest)
  let ?nodes = "nodes @ [n]"
  let ?E = "expectedBatches ed j (nodes @ n # rest)"
  obtain auth where auth: "prepareTransaction ch 0 = Inr auth"
    using ok by (auto simp add: submissionsSucceed_def)
  show ?case
  proof (cases "length ?nodes = 40 \<or> int k = int cnt - 1")
    case flush: True
    have last: "rest = [] \<longleftrightarrow> int k = int cnt - 1" using Cons.prems(1) by auto
    have tk: "take 40 (nodes @ n # rest) = ?nodes"
      using flush last Cons.prems(2) by auto
    have dr: "drop 40 (nodes @ n # rest) = rest"
      using flush last Cons.prems(2) by auto
    define call where "call = \<lparr>sed_epoch = Epoch ed,
                sed_fullSizeIn128Resolution = FullSizeIn128Resolution ed,
                sed_branchDepth = BranchDepth ed,
                sed_nodes = ?nodes, sed_start = start,
                sed_mnlen = int (length ?nodes)\<rparr>"
    obtain tx rc where tx: "SetEpochDataTx ch call = Inr tx"
      and rc: "awaitTxReceipt ch (tx_Hash tx) = Inr rc" and st: "rc_Status rc \<noteq> 0"
      using ok unfolding submissionsSucceed_def by blast
    have E: "?E = (if big_Uint64 (Epoch ed) = 128 \<and> k < 440 then [] else [call])
                   @ expectedBatches ed (Suc j) rest"
      using Cons.prems(3)
      by (subst expectedBatches.simps) (simp add: tk dr Let_def call_def Cons.prems(4) del: take_append drop_append)
    have IH: "epochLoop sp ch ed cnt (Suc k) rest [] (start + int (length ?nodes))
                = (expectedBatches ed (Suc j) rest, EpochDone)"
    proof (cases "rest = []")
      case True
      then show ?thesis by (simp add: expectedBatches.simps)
    next
      case False
      then have l40: "length ?nodes = 40" using flush last by simp
      have "epochLoop sp ch ed cnt (Suc k) rest [] (start + int (length ?nodes))
              = (expectedBatches ed (Suc j) ([] @ rest), EpochDone)"
        using Cons.prems l40 by (intro Cons.IH) simp_all
      then show ?thesis by simp
    qed
    show ?thesis
      unfolding E using flush IH auth tx[unfolded call_def] rc st
      by (simp add: Let_def call_def)
  next
    case noflush: False
    then have ne: "rest \<noteq> []" using Cons.prems(1) by auto
    have "epochLoop sp ch ed cnt (Suc k) rest ?nodes start
            = (expectedBatches ed j (?nodes @ rest), EpochDone)"
      using Cons.prems noflush ne by (intro Cons.IH) simp_all
    then show ?thesis using noflush by (simp add: Let_def)
  qed
qed

lemma big_Uint64_eq_128: "0 \<le> x \<Longrightarrow> x < 2 ^ 64 \<Longrightarrow> big_Uint64 x = 128 \<longleftrightarrow> x = 128"
proof -
  assume a: "0 \<le> x" "x < 2 ^ 64"
  have u: "uint (big_Uint64 x) = x" using a by (rule uint_big_Uint64)
  show ?thesis
  proof
    assume "big_Uint64 x = 128"
    then have "uint (big_Uint64 x) = uint (128 :: uint64)" by simp
    then show "x = 128" using u by simp
  next
    assume "x = 128"
    then show "big_Uint64 x = 128" by (simp add: big_Uint64_def)
  qed
qed

text \<open>
  C9 (the skip logic of the epoch data). On an existing chain, the transactions that
  \<open>SetEpochData\<close> sends are, in order, those of \<open>expectedBatches\<close>: the nodes cut into
  consecutive batches of at most 40; a batch is skipped (no transaction) exactly when
  the epoch is 128 and the index of its last node is below 440; batch \<open>j\<close> is sent with
  the start offset \<open>40 * j\<close> whether or not earlier batches were skipped, with its
  nodes and its length. When every submission goes through, all of them are sent and
  the loop runs to its end; when one fails, the loop stops there and what was sent is
  an initial part of them. The epoch is compared as \<^verbatim>\<open>Epoch.Uint64() == 128\<close>, which
  for an epoch in the range of \<^verbatim>\<open>uint64\<close> says that the epoch is 128.
\<close>

theorem epoch_batches:
  assumes "chains c chain = Some ch"
  shows "prefix (fst (SetEpochData sp c ed chain)) (expectedBatches ed 0 (MerkleNodes ed)) \<and>
         (submissionsSucceed ch \<longrightarrow>
            SetEpochData sp c ed chain = (expectedBatches ed 0 (MerkleNodes ed), EpochDone)) \<and>
         (0 \<le> Epoch ed \<and> Epoch ed < 2 ^ 64 \<longrightarrow>
            (big_Uint64 (Epoch ed) = 128 \<longleftrightarrow> Epoch ed = 128))"
proof (intro conjI impI)
  have "prefix (fst (epochLoop sp ch ed (length (MerkleNodes ed)) 0 (MerkleNodes ed) [] 0))
          (expectedBatches ed 0 ([] @ MerkleNodes ed))"
    by (rule epochLoop_prefix) simp_all
  then show "prefix (fst (SetEpochData sp c ed chain)) (expectedBatches ed 0 (MerkleNodes ed))"
    using assms by (simp add: SetEpochData_def)
next
  assume ok: "submissionsSucceed ch"
  have "epochLoop sp ch ed (length (MerkleNodes ed)) 0 (MerkleNodes ed) [] 0
          = (expectedBatches ed 0 ([] @ MerkleNodes ed), EpochDone)"
    using ok by (rule epochLoop_all) simp_all
  then show "SetEpochData sp c ed chain = (expectedBatches ed 0 (MerkleNodes ed), EpochDone)"
    using assms by (simp add: SetEpochData_def)
next
  assume "0 \<le> Epoch ed \<and> Epoch ed < 2 ^ 64"
  then show "big_Uint64 (Epoch ed) = 128 \<longleftrightarrow> Epoch ed = 128"
    by (simp add: big_Uint64_eq_128)
qed

lemma expectedBatches_replicate:
  "expectedBatches ed j (replicate m x) =
     (if m = 0 then []
      else (if big_Uint64 (Epoch ed) = 128 \<and> 40 * j + min 40 m - 1 < 440 then []
            else [\<lparr>sed_epoch = Epoch ed,
                   sed_fullSizeIn128Resolution = FullSizeIn128Resolution ed,
                   sed_branchDepth = BranchDepth ed,
                   sed_nodes = replicate (min 40 m) x, sed_start = int (40 * j),
                   sed_mnlen = int (min 40 m)\<rparr>])
           @ expectedBatches ed (Suc j) (replicate (m - 40) x))"
  by (subst expectedBatches.simps) (simp add: Let_def min_def)

lemma expectedBatches_Nil: "expectedBatches ed j [] = []"
  by (simp add: expectedBatches.simps)

lemma expectedBatches_single:
  "expectedBatches ed j [x] =
     (if big_Uint64 (Epoch ed) = 128 \<and> 40 * j < 440 then []
      else [\<lparr>sed_epoch = Epoch ed,
             sed_fullSizeIn128Resolution = FullSizeIn128Resolution ed,
             sed_branchDepth = BranchDepth ed,
             sed_nodes = [x], sed_start = int (40 * j), sed_mnlen = 1\<rparr>])"
  by (subst expectedBatches.simps) (simp add: Let_def expectedBatches_Nil)

theorem epoch_batches_witness:
  "chains sample_client 1 = Some accepting_chain \<and> submissionsSucceed accepting_chain \<and>
   SetEpochData verbatim_Sprintf sample_client
      \<lparr>Epoch = 128, FullSizeIn128Resolution = 8388593, BranchDepth = 10,
       MerkleNodes = replicate 441 5\<rparr> 1
     = ([\<lparr>sed_epoch = 128, sed_fullSizeIn128Resolution = 8388593, sed_branchDepth = 10,
          sed_nodes = [5], sed_start = 440, sed_mnlen = 1\<rparr>], EpochDone) \<and>
   SetEpochData verbatim_Sprintf sample_client
      \<lparr>Epoch = 7, FullSizeIn128Resolution = 8388593, BranchDepth = 10,
       MerkleNodes = replicate 41 5\<rparr> 1
     = ([\<lparr>sed_epoch = 7, sed_fullSizeIn128Resolution = 8388593, sed_branchDepth = 10,
          sed_nodes = replicate 40 5, sed_start = 0, sed_mnlen = 40\<rparr>,
         \<lparr>sed_epoch = 7, sed_fullSizeIn128Resolution = 8388593, sed_branchDepth = 10,
          sed_nodes = [5], sed_start = 40, sed_mnlen = 1\<rparr>], EpochDone)"
proof -
  let ?a = "\<lparr>Epoch = 128, FullSizeIn128Resolution = 8388593, BranchDepth = 10,
             MerkleNodes = replicate 441 5\<rparr>"
  let ?b = "\<lparr>Epoch = 7, FullSizeIn128Resolution = 8388593, BranchDepth = 10,
             MerkleNodes = replicate 41 5\<rparr>"
  have ch: "chains sample_client 1 = Some accepting_chain"
    by (simp add: sample_client_def)
  have ok: "submissionsSucceed accepting_chain"
    by (simp add: submissionsSucceed_def prepareTransaction_def accepting_chain_def)
  have ea: "expectedBatches ?a 0 (MerkleNodes ?a)
       = [\<lparr>sed_epoch = 128, sed_fullSizeIn128Resolution = 8388593, sed_branchDepth = 10,
           sed_nodes = [5], sed_start = 440, sed_mnlen = 1\<rparr>]"
    by (simp add: expectedBatches_replicate expectedBatches_single big_Uint64_def)
  have eb: "expectedBatches ?b 0 (MerkleNodes ?b)
       = [\<lparr>sed_epoch = 7, sed_fullSizeIn128Resolution = 8388593, sed_branchDepth = 10,
          sed_nodes = replicate 40 5, sed_start = 0, sed_mnlen = 40\<rparr>,
         \<lparr>sed_epoch = 7, sed_fullSizeIn128Resolution = 8388593, sed_branchDepth = 10,
          sed_nodes = [5], sed_start = 40, sed_mnlen = 1\<rparr>]"
    by (simp add: expectedBatches_replicate expectedBatches_single big_Uint64_def)
  have a: "SetEpochData verbatim_Sprintf sample_client ?a 1 = (expectedBatches ?a 0 (MerkleNodes ?a), EpochDone)"
    using epoch_batches[OF ch, of verbatim_Sprintf ?a] ok by blast
  have b: "SetEpochData verbatim_Sprintf sample_client ?b 1 = (expectedBatches ?b 0 (MerkleNodes ?b), EpochDone)"
    using epoch_batches[OF ch, of verbatim_Sprintf ?b] ok by blast
  show ?thesis
    using ch ok a b unfolding ea eb by blast
qed

section \<open>The Merkle proof builder\<close>

lemmas builder_eval =
  GenerateMerkleProofForTx_def GenerateMerkleProofForReceipt_def one_tx_client_def
  one_tx_chain_def list_trie_def GetRlp_def Let_def rlp_uint_def be_enc_0 rlp_string_def
  rlp_prefix_def rlp_byteslices_def rlp_list_def

lemma receiptsTrie_isl:
  "isl (receiptsTrie lib ch txReceipt i txs st)
     \<longleftrightarrow> (\<exists>tx\<in>set txs. isl (TransactionReceipt ch (tx_Hash tx)))"
proof (induction txs arbitrary: i st)
  case Nil
  then show ?case by simp
next
  case (Cons tx txs)
  obtain t p v where st: "st = (t, p, v)" by (cases st) auto
  show ?case
    unfolding st using Cons.IH
    by (cases "TransactionReceipt ch (tx_Hash tx)") (simp_all add: Let_def split: prod.splits)
qed

text \<open>
  C2 (a root that does not match), as the code has it. The claim as stated fails:
  neither builder computes the root of the trie it has built or compares anything with
  the root stored in the header. What holds, for every trie library: the transaction
  builder fails exactly when the chain does not exist, the receipt or the block cannot
  be fetched, or the transaction index of the receipt is out of range for the block;
  the receipt builder fails exactly when the chain does not exist or the receipt, the
  block or the receipt of one of the block's transactions cannot be fetched. In every
  other case a proof is returned with no error, whatever root the header states.
\<close>

theorem builders_fail_only_on_fetch:
  "(isl (GenerateMerkleProofForTx lib c txHash chain) \<longleftrightarrow>
      (case chains c chain of
         None \<Rightarrow> True
       | Some ch \<Rightarrow>
           (case TransactionReceipt ch txHash of
              Inl e \<Rightarrow> True
            | Inr txReceipt \<Rightarrow>
                (case BlockByHash ch (rc_BlockHash txReceipt) of
                   Inl e \<Rightarrow> True
                 | Inr block \<Rightarrow>
                     \<not> (0 \<le> sint (rc_TransactionIndex txReceipt) \<and>
                        sint (rc_TransactionIndex txReceipt)
                          < int (length (blk_Transactions block))))))) \<and>
   (isl (GenerateMerkleProofForReceipt lib c txHash chain) \<longleftrightarrow>
      (case chains c chain of
         None \<Rightarrow> True
       | Some ch \<Rightarrow>
           (case TransactionReceipt ch txHash of
              Inl e \<Rightarrow> True
            | Inr txReceipt \<Rightarrow>
                (case BlockByHash ch (rc_BlockHash txReceipt) of
                   Inl e \<Rightarrow> True
                 | Inr block \<Rightarrow>
                     (\<exists>tx\<in>set (blk_Transactions block).
                        isl (TransactionReceipt ch (tx_Hash tx)))))))"
proof (intro conjI)
  show "isl (GenerateMerkleProofForTx lib c txHash chain) \<longleftrightarrow>
      (case chains c chain of
         None \<Rightarrow> True
       | Some ch \<Rightarrow>
           (case TransactionReceipt ch txHash of
              Inl e \<Rightarrow> True
            | Inr txReceipt \<Rightarrow>
                (case BlockByHash ch (rc_BlockHash txReceipt) of
                   Inl e \<Rightarrow> True
                 | Inr block \<Rightarrow>
                     \<not> (0 \<le> sint (rc_TransactionIndex txReceipt) \<and>
                        sint (rc_TransactionIndex txReceipt)
                          < int (length (blk_Transactions block))))))"
    by (simp add: GenerateMerkleProofForTx_def GetRlp_def Let_def split: option.splits sum.splits)
  show "isl (GenerateMerkleProofForReceipt lib c txHash chain) \<longleftrightarrow>
      (case chains c chain of
         None \<Rightarrow> True
       | Some ch \<Rightarrow>
           (case TransactionReceipt ch txHash of
              Inl e \<Rightarrow> True
            | Inr txReceipt \<Rightarrow>
                (case BlockByHash ch (rc_BlockHash txReceipt) of
                   Inl e \<Rightarrow> True
                 | Inr block \<Rightarrow>
                     (\<exists>tx\<in>set (blk_Transactions block).
                        isl (TransactionReceipt ch (tx_Hash tx))))))"
  proof (cases "chains c chain")
    case None
    then show ?thesis by (simp add: GenerateMerkleProofForReceipt_def)
  next
    case (Some ch)
    show ?thesis
    proof (cases "TransactionReceipt ch txHash")
      case (Inl e)
      then show ?thesis using Some by (simp add: GenerateMerkleProofForReceipt_def)
    next
      case rc: (Inr txReceipt)
      show ?thesis
      proof (cases "BlockByHash ch (rc_BlockHash txReceipt)")
        case (Inl e)
        then show ?thesis using Some rc by (simp add: GenerateMerkleProofForReceipt_def)
      next
        case blk: (Inr block)
        let ?r = "receiptsTrie lib ch txReceipt 0 (blk_Transactions block) (trie_new lib, [], [])"
        have fetch: "isl ?r \<longleftrightarrow>
                (\<exists>tx\<in>set (blk_Transactions block). isl (TransactionReceipt ch (tx_Hash tx)))"
          by (rule receiptsTrie_isl)
        show ?thesis
        proof (cases ?r)
          case (Inl e)
          then show ?thesis using Some rc blk fetch
            by (simp add: GenerateMerkleProofForReceipt_def)
        next
          case (Inr st)
          obtain t p v where st: "st = (t, p, v)" by (cases st) auto
          show ?thesis using Some rc blk fetch Inr st
            by (simp add: GenerateMerkleProofForReceipt_def Let_def)
        qed
      qed
    qed
  qed
qed

theorem builders_fail_only_on_fetch_witness:
  "\<not> isl (GenerateMerkleProofForTx list_trie (one_tx_client sample_header) [9] 1) \<and>
   \<not> isl (GenerateMerkleProofForReceipt list_trie (one_tx_client sample_header) [9] 1)"
  using builders_fail_only_on_fetch[of list_trie "one_tx_client sample_header" "[9]" 1]
  by (simp add: one_tx_client_def one_tx_chain_def)

text \<open>
  The counterexample to C2 as stated: a block whose header states the transactions root
  \<open>55..55\<close> and the receipts root \<open>66..66\<close>, neither of them the root of the
  reconstructed trie (for the stand-in library, 32 zero bytes). Both builders return a
  proof. The same block with the stated transactions root \<open>aa..aa\<close> gives the same
  proof: since the reconstructed trie is the same for both headers, its root differs
  from at least one of the two stated roots, whatever the hash function is.
\<close>

theorem root_mismatch_counterexample:
  "trie_Hash list_trie
      (txTrie list_trie 0 [\<lparr>tx_Hash = [9], tx_Data = [], tx_Rlp = [0xc1, 0x01]\<rparr>]
         (trie_new list_trie)) \<noteq> TxHash sample_header \<and>
   GenerateMerkleProofForTx list_trie (one_tx_client sample_header) [9] 1
     = Inr (rlp_Header sample_header, [0xc1, 0x01], [0x80], [0xc3, 0x82, 0xc1, 0x01]) \<and>
   GenerateMerkleProofForTx list_trie
       (one_tx_client (sample_header\<lparr>TxHash := replicate 32 0xaa\<rparr>)) [9] 1
     = Inr (rlp_Header (sample_header\<lparr>TxHash := replicate 32 0xaa\<rparr>),
            [0xc1, 0x01], [0x80], [0xc3, 0x82, 0xc1, 0x01]) \<and>
   trie_Hash list_trie [([0x80], [0xc1, 0x02])] \<noteq> ReceiptHash sample_header \<and>
   GenerateMerkleProofForReceipt list_trie (one_tx_client sample_header) [9] 1
     = Inr (rlp_Header sample_header, [0xc1, 0x02], [0x80], [0xc3, 0x82, 0xc1, 0x02])"
  by (simp add: builder_eval sample_header_def)

lemma findLeafProof_none: "\<not> leafFound ps path \<Longrightarrow> findLeafProof ps path = []"
  by (induction ps path rule: findLeafProof.induct) auto

lemma rlp_byteslices_Nil: "rlp_byteslices [] = [0xc0]"
  by (simp add: rlp_byteslices_def rlp_list_def rlp_prefix_def)

text \<open>
  C7 (no leaf matches the path), as the code has it. The claim as stated fails: after
  the walk there is no check that a leaf was found. What holds, for every trie library:
  when the receipt and the block are fetched (for the transaction builder the index is
  in range, for the receipt builder every receipt of the block is fetched) and the walk
  meets no leaf whose key is the path, the builder returns with no error the encoded
  header, the value, the path, and as proof nodes the encoding of the empty list, the
  single byte \<open>0xc0\<close>.
\<close>

theorem no_leaf_no_error:
  "(\<forall>ch txReceipt block v.
      chains c chain = Some ch \<and> TransactionReceipt ch txHash = Inr txReceipt \<and>
      BlockByHash ch (rc_BlockHash txReceipt) = Inr block \<and>
      GetRlp (blk_Transactions block) (sint (rc_TransactionIndex txReceipt)) = Inr v \<and>
      \<not> leafFound (trie_NodeIterator lib (txTrie lib 0 (blk_Transactions block) (trie_new lib)))
           (rlp_uint (rc_TransactionIndex txReceipt)) \<longrightarrow>
      GenerateMerkleProofForTx lib c txHash chain
        = Inr (rlp_Header (blk_Header block), v, rlp_uint (rc_TransactionIndex txReceipt),
               [0xc0])) \<and>
   (\<forall>ch txReceipt block t path v.
      chains c chain = Some ch \<and> TransactionReceipt ch txHash = Inr txReceipt \<and>
      BlockByHash ch (rc_BlockHash txReceipt) = Inr block \<and>
      receiptsTrie lib ch txReceipt 0 (blk_Transactions block) (trie_new lib, [], [])
        = Inr (t, path, v) \<and>
      \<not> leafFound (trie_NodeIterator lib t) path \<longrightarrow>
      GenerateMerkleProofForReceipt lib c txHash chain
        = Inr (rlp_Header (blk_Header block), v, path, [0xc0]))"
  by (simp add: GenerateMerkleProofForTx_def GenerateMerkleProofForReceipt_def Let_def
      findLeafProof_none rlp_byteslices_Nil)

theorem no_leaf_no_error_witness:
  "chains (one_tx_client sample_header) 1 = Some (one_tx_chain sample_header) \<and>
   receiptsTrie list_trie (one_tx_chain sample_header)
      \<lparr>rc_TxHash = [8], rc_BlockHash = [0xb1], rc_TransactionIndex = 0, rc_Status = 1,
       rc_BlockNumber = 100, rc_Rlp = [0xc1, 0x02]\<rparr> 0
      [\<lparr>tx_Hash = [9], tx_Data = [], tx_Rlp = [0xc1, 0x01]\<rparr>] (trie_new list_trie, [], [])
     = Inr ([([0x80], [0xc1, 0x02])], [], []) \<and>
   \<not> leafFound (trie_NodeIterator list_trie [([0x80], [0xc1, 0x02])]) [] \<and>
   GenerateMerkleProofForReceipt list_trie (one_tx_client sample_header) [8] 1
     = Inr (rlp_Header sample_header, [], [], [0xc0])"
proof -
  let ?ch = "one_tx_chain sample_header"
  let ?rc = "\<lparr>rc_TxHash = [8], rc_BlockHash = [0xb1], rc_TransactionIndex = 0, rc_Status = 1,
              rc_BlockNumber = 100, rc_Rlp = [0xc1, 0x02]\<rparr>"
  let ?blk = "\<lparr>blk_Header = sample_header,
               blk_Transactions = [\<lparr>tx_Hash = [9], tx_Data = [], tx_Rlp = [0xc1, 0x01]\<rparr>]\<rparr>"
  have c: "chains (one_tx_client sample_header) 1 = Some ?ch"
    by (simp add: one_tx_client_def)
  have r: "TransactionReceipt ?ch [8] = Inr ?rc"
    by (simp add: one_tx_chain_def)
  have b: "BlockByHash ?ch (rc_BlockHash ?rc) = Inr ?blk"
    by (simp add: one_tx_chain_def)
  have t: "receiptsTrie list_trie ?ch ?rc 0 (blk_Transactions ?blk) (trie_new list_trie, [], [])
             = Inr ([([0x80], [0xc1, 0x02])], [], [])"
    by (simp add: builder_eval)
  have l: "\<not> leafFound (trie_NodeIterator list_trie [([0x80], [0xc1, 0x02])]) []"
    by (simp add: list_trie_def)
  have "GenerateMerkleProofForReceipt list_trie (one_tx_client sample_header) [8] 1
          = Inr (rlp_Header (blk_Header ?blk), [], [], [0xc0])"
    using no_leaf_no_error[of "one_tx_client sample_header" 1 "[8]" list_trie] c r b t l
    by blast
  then show ?thesis using c t l by simp
qed

text \<open>
  The counterexample to C7 as stated: the receipt of transaction \<open>[8]\<close> names a block
  whose only transaction is \<open>[9]\<close>. No fetched receipt has the target's transaction
  hash, the path stays empty, the only leaf of the trie has the key \<open>0x80\<close>, and the
  receipt builder returns an empty value, an empty path and the empty proof list.
\<close>

theorem no_leaf_counterexample:
  "\<not> leafFound
       (trie_NodeIterator list_trie
          (trie_Update list_trie (trie_new list_trie) (rlp_uint 0) [0xc1, 0x02])) [] \<and>
   GenerateMerkleProofForReceipt list_trie (one_tx_client sample_header) [8] 1
     = Inr (rlp_Header sample_header, [], [], [0xc0])"
  by (simp add: builder_eval)

lemma sint_small: 
  assumes "unat (w :: uint64) < 2 ^ 63" 
  shows "sint w = uint w"
proof -
  have u: "uint w = int (unat w)" by (rule uint_nat)
  have "int (unat w) < int (2 ^ 63)" using assms by (simp only: of_nat_less_iff)
  then have "uint w < int (2 ^ 63)" by (simp only: u)
  then have lt: "uint w < 2 ^ 63" by simp
  have ge: "- (2 ^ 63) \<le> uint w" 
  proof -
    have "(0::int) \<le> uint w" by simp
    moreover have "- (2 ^ 63) \<le> (0::int)" by simp
    ultimately show ?thesis by (rule order_trans[rotated])
  qed
  have "signed_take_bit 63 (uint w) = uint w"
    using ge lt by (rule signed_take_bit_int_eq_self)
  then show ?thesis by (simp add: sint_uint)
qed

lemma nat_sint_small: "unat (w :: uint64) < 2 ^ 63 \<Longrightarrow> nat (sint w) = unat w"
  by (simp add: sint_small)

lemma findLeafProof_found:
  "leafFound ps path \<Longrightarrow> LeafNode path (findLeafProof ps path) \<in> set ps"
  by (induction ps path rule: findLeafProof.induct) auto

lemma rlp_string_inj:
  assumes "rlp_string a = rlp_string b" "length a < 2 ^ 64" "length b < 2 ^ 64"
  shows "a = b"
proof -
  have "Some (a, []) = dec_bytes (rlp_string a)"
    using assms(2) by (rule dec_bytes_rlp_string_end[symmetric])
  also have "\<dots> = dec_bytes (rlp_string b)" by (simp only: assms(1))
  also have "\<dots> = Some (b, [])" using assms(3) by (rule dec_bytes_rlp_string_end)
  finally show ?thesis by simp
qed

lemma be_enc_inj:
  assumes "be_enc a = be_enc b"
  shows "a = b"
proof -
  have "a = be_dec (be_enc a)" by (simp only: be_dec_be_enc)
  also have "\<dots> = be_dec (be_enc b)" by (simp only: assms)
  also have "\<dots> = b" by (simp only: be_dec_be_enc)
  finally show ?thesis .
qed

lemma txTrie_Cons:
  "txTrie lib i (tx # txs) t = txTrie lib (Suc i) txs (trie_Update lib t (txKey i) (tx_Rlp tx))"
  by (simp add: txKey_def)

lemma length_be_enc_64: "a < 2 ^ 64 \<Longrightarrow> length (be_enc a) < 2 ^ 64"
proof -
  assume a: "a < 2 ^ 64"
  have "(2::nat) ^ 64 = 256 ^ 8" by simp
  then have "a < 256 ^ 8" using a by (simp only:)
  then have "length (be_enc a) \<le> 8" by (rule length_be_enc)
  then show ?thesis by simp
qed

lemma txKey_inj:
  assumes "txKey a = txKey b" "a < 2 ^ 64" "b < 2 ^ 64"
  shows "a = b"
proof -
  have ua: "unat (of_nat a :: uint64) = a" using assms(2) by (rule unat_u64)
  have ub: "unat (of_nat b :: uint64) = b" using assms(3) by (rule unat_u64)
  have la: "length (be_enc a) < 2 ^ 64" using assms(2) by (rule length_be_enc_64)
  have lb: "length (be_enc b) < 2 ^ 64" using assms(3) by (rule length_be_enc_64)
  have "rlp_string (be_enc a) = rlp_string (be_enc b)"
    using assms(1) by (simp add: txKey_def rlp_uint_def ua ub)
  then have "be_enc a = be_enc b" using la lb by (rule rlp_string_inj)
  then show ?thesis by (rule be_enc_inj)
qed

lemma txTrie_wf:
  assumes c: "trie_contract lib wft okv content verify"
  shows "wft t \<Longrightarrow> \<forall>tx\<in>set txs. okv (tx_Rlp tx) \<Longrightarrow> wft (txTrie lib i txs t)"
proof (induction txs arbitrary: i t)
  case Nil
  then show ?case by simp
next
  case (Cons tx txs)
  have "wft (trie_Update lib t (txKey i) (tx_Rlp tx))"
    using c Cons.prems unfolding trie_contract_def by simp
  then show ?case unfolding txTrie_Cons using Cons.prems by (intro Cons.IH) simp_all
qed

lemma txTrie_content_other:
  assumes c: "trie_contract lib wft okv content verify"
  shows "wft t \<Longrightarrow> \<forall>tx\<in>set txs. okv (tx_Rlp tx) \<Longrightarrow>
         \<forall>j<length txs. k \<noteq> txKey (i + j) \<Longrightarrow>
         content (txTrie lib i txs t) k = content t k"
proof (induction txs arbitrary: i t)
  case Nil
  then show ?case by simp
next
  case (Cons tx txs)
  let ?t = "trie_Update lib t (txKey i) (tx_Rlp tx)"
  have w: "wft ?t"
    and ct: "\<And>k'. content ?t k' = (if k' = txKey i then Some (tx_Rlp tx) else content t k')"
    using c Cons.prems(1,2) unfolding trie_contract_def by simp_all
  have k0: "k \<noteq> txKey i" using Cons.prems(3)[rule_format, of 0] by simp
  have rest: "\<forall>j<length txs. k \<noteq> txKey (Suc i + j)"
  proof (intro allI impI)
    fix j assume "j < length txs"
    then have "Suc j < length (tx # txs)" by simp
    then have "k \<noteq> txKey (i + Suc j)" using Cons.prems(3) by blast
    then show "k \<noteq> txKey (Suc i + j)" by simp
  qed
  have "content (txTrie lib (Suc i) txs ?t) k = content ?t k"
    using w Cons.prems(2) rest by (intro Cons.IH) simp_all
  then show ?case unfolding txTrie_Cons using ct k0 by simp
qed

lemma txTrie_content_at:
  assumes c: "trie_contract lib wft okv content verify"
  shows "wft t \<Longrightarrow> \<forall>tx\<in>set txs. okv (tx_Rlp tx) \<Longrightarrow> i + length txs \<le> 2 ^ 64 \<Longrightarrow>
         j < length txs \<Longrightarrow>
         content (txTrie lib i txs t) (txKey (i + j)) = Some (tx_Rlp (txs ! j))"
proof (induction txs arbitrary: i t j)
  case Nil
  then show ?case by simp
next
  case (Cons tx txs)
  let ?t = "trie_Update lib t (txKey i) (tx_Rlp tx)"
  have w: "wft ?t"
    and ct: "\<And>k'. content ?t k' = (if k' = txKey i then Some (tx_Rlp tx) else content t k')"
    using c Cons.prems(1,2) unfolding trie_contract_def by simp_all
  show ?case
  proof (cases j)
    case 0
    have "\<forall>j'<length txs. txKey i \<noteq> txKey (Suc i + j')"
    proof (intro allI impI notI)
      fix j' assume j': "j' < length txs" and e: "txKey i = txKey (Suc i + j')"
      have "i < 2 ^ 64" "Suc i + j' < 2 ^ 64" using Cons.prems(3) j' by simp_all
      with e have "i = Suc i + j'" by (intro txKey_inj)
      then show False by simp
    qed
    then have "content (txTrie lib (Suc i) txs ?t) (txKey i) = content ?t (txKey i)"
      using w Cons.prems(2) by (intro txTrie_content_other[OF c]) simp_all
    then show ?thesis unfolding txTrie_Cons using 0 ct by simp
  next
    case (Suc j')
    have "content (txTrie lib (Suc i) txs ?t) (txKey (Suc i + j')) = Some (tx_Rlp (txs ! j'))"
      using w Cons.prems Suc by (intro Cons.IH) simp_all
    then show ?thesis unfolding txTrie_Cons using Suc by simp
  qed
qed

lemma tx_builder_result:
  assumes ch: "chains cl chain = Some ch"
    and rc: "TransactionReceipt ch txHash = Inr txReceipt"
    and blk: "BlockByHash ch (rc_BlockHash txReceipt) = Inr block"
    and idx: "unat (rc_TransactionIndex txReceipt) < length (blk_Transactions block)"
    and sz: "length (blk_Transactions block) < 2 ^ 63"
  shows "GenerateMerkleProofForTx lib cl txHash chain
           = Inr (rlp_Header (blk_Header block),
                  tx_Rlp (blk_Transactions block ! unat (rc_TransactionIndex txReceipt)),
                  rlp_uint (rc_TransactionIndex txReceipt),
                  rlp_byteslices
                    (findLeafProof
                       (trie_NodeIterator lib
                          (txTrie lib 0 (blk_Transactions block) (trie_new lib)))
                       (rlp_uint (rc_TransactionIndex txReceipt))))"
proof -
  let ?idx = "rc_TransactionIndex txReceipt"
  let ?txs = "blk_Transactions block"
  define i where "i = unat ?idx"
  have idx': "i < length ?txs" using idx by (simp only: i_def)
  have i63: "unat ?idx < 2 ^ 63" using idx sz by simp
  have si: "sint ?idx = uint ?idx" using i63 by (rule sint_small)
  have ui: "uint ?idx = int i" unfolding i_def by (rule uint_nat)
  have g: "GetRlp ?txs (sint ?idx) = Inr (tx_Rlp (?txs ! i))"
    using idx' by (simp add: GetRlp_def si ui)
  have "GenerateMerkleProofForTx lib cl txHash chain
          = Inr (rlp_Header (blk_Header block), tx_Rlp (?txs ! i), rlp_uint ?idx,
                 rlp_byteslices
                   (findLeafProof (trie_NodeIterator lib (txTrie lib 0 ?txs (trie_new lib)))
                      (rlp_uint ?idx)))"
    using ch rc blk g by (simp add: GenerateMerkleProofForTx_def Let_def)
  then show ?thesis by (simp only: i_def)
qed

lemma tx_leaf_replay:
  assumes c: "trie_contract lib wft okv content verify"
    and ok: "\<forall>tx\<in>set txs. okv (tx_Rlp tx)"
    and idx: "i < length txs"
    and sz: "length txs < 2 ^ 63"
  shows "verify (trie_Hash lib (txTrie lib 0 txs (trie_new lib))) (txKey i)
           (findLeafProof (trie_NodeIterator lib (txTrie lib 0 txs (trie_new lib))) (txKey i))
         = Some (tx_Rlp (txs ! i))"
proof -
  let ?t = "txTrie lib 0 txs (trie_new lib)"
  let ?pn = "findLeafProof (trie_NodeIterator lib ?t) (txKey i)"
  have w0: "wft (trie_new lib)" using c by (simp add: trie_contract_def)
  have w: "wft ?t" using c w0 ok by (rule txTrie_wf)
  have "0 + length txs \<le> 2 ^ 64" using sz by simp
  then have "content ?t (txKey (0 + i)) = Some (tx_Rlp (txs ! i))"
    using w0 ok idx by (intro txTrie_content_at[OF c]) simp_all
  then have ct: "content ?t (txKey i) = Some (tx_Rlp (txs ! i))" by simp
  have "leafFound (trie_NodeIterator lib ?t) (txKey i)"
    using c w ct unfolding trie_contract_def by blast
  then have "LeafNode (txKey i) ?pn \<in> set (trie_NodeIterator lib ?t)"
    by (rule findLeafProof_found)
  then have "verify (trie_Hash lib ?t) (txKey i) ?pn = content ?t (txKey i)"
    using c w unfolding trie_contract_def by blast
  then show ?thesis using ct by simp
qed

text \<open>
  C1 (trie proof soundness), as the code has it. The claim as stated fails: the builder
  never reads the transactions root stored in the header, so what the proof hashes to
  is the root of the trie built from the block's transactions, whatever the header
  stores. What holds: for every block that is fetched with transactions
  \<open>T_0 .. T_(n-1)\<close> (\<open>n\<close> below \<open>2^63\<close>) and every index \<open>i < n\<close> reported by the receipt,
  \<open>GenerateMerkleProofForTx\<close> returns the encoded header, the encoding of \<open>T_i\<close> as the
  value, the RLP encoding of the unsigned integer \<open>i\<close> as the path, and the encoded proof
  nodes of the first leaf with that key in the trie built from the transactions; these
  do not depend on the header. For every trie library that meets the contract of the
  trie library (the encodings of the transactions being admissible values), replaying
  these proof nodes along that path against the root of the built trie gives exactly
  the encoding of \<open>T_i\<close>; it does so against the root stored in the header when the
  stored root is the root of the built trie.
\<close>

theorem tx_proof_sound:
  assumes ch: "chains cl chain = Some ch"
    and rc: "TransactionReceipt ch txHash = Inr txReceipt"
    and blk: "BlockByHash ch (rc_BlockHash txReceipt) = Inr block"
    and txs: "txs = blk_Transactions block"
    and i: "i = unat (rc_TransactionIndex txReceipt)"
    and idx: "i < length txs"
    and sz: "length txs < 2 ^ 63"
    and builtTrie: "builtTrie = txTrie lib 0 txs (trie_new lib)"
    and proofNodes: "proofNodes = findLeafProof (trie_NodeIterator lib builtTrie)
                                    (rlp_uint (of_nat i))"
  shows "GenerateMerkleProofForTx lib cl txHash chain
           = Inr (rlp_Header (blk_Header block), tx_Rlp (txs ! i),
                  rlp_uint (of_nat i), rlp_byteslices proofNodes) \<and>
         (trie_contract lib wft okv content verify \<and> (\<forall>tx\<in>set txs. okv (tx_Rlp tx)) \<longrightarrow>
            verify (trie_Hash lib builtTrie) (rlp_uint (of_nat i)) proofNodes
              = Some (tx_Rlp (txs ! i)) \<and>
            (TxHash (blk_Header block) = trie_Hash lib builtTrie \<longrightarrow>
               verify (TxHash (blk_Header block)) (rlp_uint (of_nat i)) proofNodes
                 = Some (tx_Rlp (txs ! i))))"
proof (intro conjI impI)
  have oi: "(of_nat i :: uint64) = rc_TransactionIndex txReceipt" by (simp add: i)
  have idx': "unat (rc_TransactionIndex txReceipt) < length (blk_Transactions block)"
    using idx by (simp add: i txs)
  have sz': "length (blk_Transactions block) < 2 ^ 63" using sz by (simp add: txs)
  show "GenerateMerkleProofForTx lib cl txHash chain
          = Inr (rlp_Header (blk_Header block), tx_Rlp (txs ! i),
                 rlp_uint (of_nat i), rlp_byteslices proofNodes)"
    using tx_builder_result[OF ch rc blk idx' sz', of lib]
    by (simp add: proofNodes builtTrie oi txs[symmetric] i[symmetric])
next
  assume a: "trie_contract lib wft okv content verify \<and> (\<forall>tx\<in>set txs. okv (tx_Rlp tx))"
  then have c: "trie_contract lib wft okv content verify"
    and ok: "\<forall>tx\<in>set txs. okv (tx_Rlp tx)" by simp_all
  have "verify (trie_Hash lib (txTrie lib 0 txs (trie_new lib))) (txKey i)
          (findLeafProof (trie_NodeIterator lib (txTrie lib 0 txs (trie_new lib))) (txKey i))
        = Some (tx_Rlp (txs ! i))"
    using c ok idx sz by (rule tx_leaf_replay)
  then show v: "verify (trie_Hash lib builtTrie) (rlp_uint (of_nat i)) proofNodes
                  = Some (tx_Rlp (txs ! i))"
    by (simp add: txKey_def proofNodes builtTrie)
  assume "TxHash (blk_Header block) = trie_Hash lib builtTrie"
  then show "verify (TxHash (blk_Header block)) (rlp_uint (of_nat i)) proofNodes
               = Some (tx_Rlp (txs ! i))"
    using v by simp
qed

lemma leafFound_flat:
  "leafFound (map (\<lambda>kv. LeafNode (fst kv) ns) t) k \<longleftrightarrow> k \<in> fst ` set t"
  by (induction t) auto

lemma map_of_filter_key:
  "map_of (filter (\<lambda>kv. fst kv \<noteq> k) t) k' = (if k' = k then None else map_of t k')"
  by (induction t) auto

lemma flat_lookup_nodes: "flat_lookup k (flat_nodes t) = map_of t k"
  by (induction t) (auto simp add: flat_nodes_def)

lemma flat_trie_contract: "trie_contract flat_trie flat_wft flat_okv map_of flat_verify"
  unfolding trie_contract_def
proof (intro conjI allI impI)
  show "flat_wft (trie_new flat_trie)" by (simp add: flat_wft_def flat_trie_def)
next
  fix k show "map_of (trie_new flat_trie) k = None" by (simp add: flat_trie_def)
next
  fix t k v assume "flat_wft t \<and> flat_okv v"
  then show "flat_wft (trie_Update flat_trie t k v)"
    by (auto simp add: flat_wft_def flat_okv_def flat_trie_def distinct_map_filter)
next
  fix t k v k' assume "flat_wft t \<and> flat_okv v"
  then show "map_of (trie_Update flat_trie t k v) k' = (if k' = k then Some v else map_of t k')"
    by (auto simp add: flat_okv_def flat_trie_def map_of_filter_key)
next
  fix t k v assume "flat_wft t \<and> map_of t k = Some v"
  then have "k \<in> fst ` set t" by (auto dest: map_of_SomeD intro: rev_image_eqI)
  then show "leafFound (trie_NodeIterator flat_trie t) k"
    by (simp add: flat_trie_def leafFound_flat)
next
  fix t k pn assume a: "flat_wft t \<and> LeafNode k pn \<in> set (trie_NodeIterator flat_trie t)"
  then obtain v where kv: "(k, v) \<in> set t"
    by (auto simp add: flat_trie_def)
  have "map_of t k = Some v" using a kv by (simp add: flat_wft_def)
  then show "map_of t k \<noteq> None" by simp
next
  fix t k pn assume a: "flat_wft t \<and> LeafNode k pn \<in> set (trie_NodeIterator flat_trie t)"
  then have pv: "pn = flat_nodes t" by (auto simp add: flat_trie_def)
  show "flat_verify (trie_Hash flat_trie t) k pn = map_of t k"
    unfolding pv by (simp add: flat_verify_def flat_trie_def flat_lookup_nodes)
qed

lemma be_enc_byte: "0 < n \<Longrightarrow> n < 256 \<Longrightarrow> be_enc n = [of_nat n]"
  by (subst be_enc.simps) (simp add: be_enc_0)

lemma three_keys:
  "rlp_uint 0 = [0x80]" "rlp_uint 1 = [0x01]" "rlp_uint 2 = [0x02]"
  by (simp_all add: rlp_uint_def be_enc_0 be_enc_byte rlp_string_def rlp_prefix_def)

lemma three_tx_trie:
  "txTrie flat_trie 0 three_txs (trie_new flat_trie)
     = [([0x02], [0xc1, 0x03]), ([0x01], [0xc1, 0x02]), ([0x80], [0xc1, 0x01])]"
  by (simp add: three_txs_def flat_trie_def three_keys)

lemma three_tx_proof:
  "findLeafProof
     (trie_NodeIterator flat_trie (txTrie flat_trie 0 three_txs (trie_new flat_trie))) [0x01]
   = three_tx_nodes"
  unfolding three_tx_trie by (simp add: flat_trie_def flat_nodes_def three_tx_nodes_def)

lemma three_tx_root:
  "trie_Hash flat_trie (txTrie flat_trie 0 three_txs (trie_new flat_trie))
     = flat_root three_tx_nodes"
  unfolding three_tx_trie by (simp add: flat_trie_def flat_nodes_def three_tx_nodes_def)

lemma three_tx_fetch:
  "chains (three_tx_client hdr) 1 = Some (three_tx_chain hdr)"
  "TransactionReceipt (three_tx_chain hdr) [10]
     = Inr \<lparr>rc_TxHash = [10], rc_BlockHash = [0xb3], rc_TransactionIndex = 1,
            rc_Status = 1, rc_BlockNumber = 100, rc_Rlp = [0xc1, 0x0b]\<rparr>"
  "BlockByHash (three_tx_chain hdr) [0xb3] = Inr \<lparr>blk_Header = hdr, blk_Transactions = three_txs\<rparr>"
  by (simp_all add: three_tx_client_def three_tx_chain_def one_tx_chain_def)

lemma three_tx_builder:
  "GenerateMerkleProofForTx lib (three_tx_client hdr) [10] 1
     = Inr (rlp_Header hdr, [0xc1, 0x02], [0x01],
            rlp_byteslices
              (findLeafProof
                 (trie_NodeIterator lib (txTrie lib 0 three_txs (trie_new lib))) [0x01]))"
proof -
  let ?rc = "\<lparr>rc_TxHash = [10], rc_BlockHash = [0xb3], rc_TransactionIndex = 1,
              rc_Status = 1, rc_BlockNumber = 100, rc_Rlp = [0xc1, 0x0b]\<rparr>"
  let ?blk = "\<lparr>blk_Header = hdr, blk_Transactions = three_txs\<rparr>"
  have b: "BlockByHash (three_tx_chain hdr) (rc_BlockHash ?rc) = Inr ?blk"
    by (simp add: three_tx_fetch)
  have idx: "unat (rc_TransactionIndex ?rc) < length (blk_Transactions ?blk)"
    by (simp add: three_txs_def)
  have sz: "length (blk_Transactions ?blk) < 2 ^ 63" by (simp add: three_txs_def)
  show ?thesis
    using tx_builder_result[OF three_tx_fetch(1) three_tx_fetch(2) b idx sz, of lib]
    by (simp add: three_txs_def three_keys)
qed

text \<open>
  The stand-in library meets the contract; on the block of three transactions with the
  consistent header the builder returns the proof of transaction 1, and the replay
  against the stored root gives the encoding of that transaction.
\<close>

theorem tx_proof_sound_witness:
  "trie_contract flat_trie flat_wft flat_okv map_of flat_verify \<and>
   GenerateMerkleProofForTx flat_trie (three_tx_client consistent_header) [10] 1
     = Inr (rlp_Header consistent_header, [0xc1, 0x02], [0x01], rlp_byteslices three_tx_nodes) \<and>
   trie_Hash flat_trie (txTrie flat_trie 0 three_txs (trie_new flat_trie))
     = TxHash consistent_header \<and>
   flat_verify (TxHash consistent_header) [0x01] three_tx_nodes = Some [0xc1, 0x02]"
proof -
  let ?rc = "\<lparr>rc_TxHash = [10], rc_BlockHash = [0xb3], rc_TransactionIndex = 1,
              rc_Status = 1, rc_BlockNumber = 100, rc_Rlp = [0xc1, 0x0b]\<rparr>"
  let ?blk = "\<lparr>blk_Header = consistent_header, blk_Transactions = three_txs\<rparr>"
  have b: "BlockByHash (three_tx_chain consistent_header) (rc_BlockHash ?rc) = Inr ?blk"
    by (simp add: three_tx_fetch)
  have t: "three_txs = blk_Transactions ?blk" by simp
  have i: "1 = unat (rc_TransactionIndex ?rc)" by simp
  have idx: "1 < length three_txs" by (simp add: three_txs_def)
  have sz: "length three_txs < 2 ^ 63" by (simp add: three_txs_def)
  have ok: "\<forall>tx\<in>set three_txs. flat_okv (tx_Rlp tx)"
    by (simp add: three_txs_def flat_okv_def)
  have root: "TxHash (blk_Header ?blk)
                = trie_Hash flat_trie (txTrie flat_trie 0 three_txs (trie_new flat_trie))"
    by (simp add: three_tx_root consistent_header_def)
  have v: "tx_Rlp (three_txs ! Suc 0) = [0xc1, 0x02]" by (simp add: three_txs_def)
  note s = tx_proof_sound[OF three_tx_fetch(1) three_tx_fetch(2) b t i idx sz refl refl,
      of flat_trie flat_wft flat_okv map_of flat_verify]
  note s1 = s[THEN conjunct1]
  note s2 = s[THEN conjunct2, THEN mp, OF conjI[OF flat_trie_contract ok]]
  note s3 = s2[THEN conjunct2, THEN mp, OF root]
  have g: "GenerateMerkleProofForTx flat_trie (three_tx_client consistent_header) [10] 1
     = Inr (rlp_Header consistent_header, [0xc1, 0x02], [0x01], rlp_byteslices three_tx_nodes)"
    using s1 by (simp add: three_keys three_tx_proof v)
  have r: "flat_verify (TxHash consistent_header) [0x01] three_tx_nodes = Some [0xc1, 0x02]"
    using s3 by (simp add: three_keys three_tx_proof v)
  from flat_trie_contract g root[symmetric] r show ?thesis by (simp only: simp_thms Block.simps)
qed

text \<open>
  The claim of C1 at a block of three transactions whose header stores the root
  \<open>0x55 .. 55\<close>, with the stand-in trie library: the builder returns the proof of
  transaction 1, the root recomputed from the proof nodes is not the stored root, and
  the replay against the stored root gives nothing. Whatever the trie library, the
  value, the path and the proof returned for this block are those returned for the
  block with the same transactions and the consistent header, whose stored root is
  another one.
\<close>

theorem stored_root_counterexample:
  "GenerateMerkleProofForTx flat_trie (three_tx_client sample_header) [10] 1
     = Inr (rlp_Header sample_header, [0xc1, 0x02], [0x01], rlp_byteslices three_tx_nodes) \<and>
   TxHash sample_header = replicate 32 0x55 \<and>
   flat_root three_tx_nodes \<noteq> TxHash sample_header \<and>
   flat_verify (TxHash sample_header) [0x01] three_tx_nodes = None \<and>
   (\<forall>lib. \<exists>v p pn.
      GenerateMerkleProofForTx lib (three_tx_client sample_header) [10] 1
        = Inr (rlp_Header sample_header, v, p, pn) \<and>
      GenerateMerkleProofForTx lib (three_tx_client consistent_header) [10] 1
        = Inr (rlp_Header consistent_header, v, p, pn) \<and>
      TxHash sample_header \<noteq> TxHash consistent_header)"
proof -
  have g: "GenerateMerkleProofForTx flat_trie (three_tx_client sample_header) [10] 1
     = Inr (rlp_Header sample_header, [0xc1, 0x02], [0x01], rlp_byteslices three_tx_nodes)"
    by (simp add: three_tx_builder three_tx_proof)
  have h: "TxHash sample_header = replicate 32 0x55" by (simp add: sample_header_def)
  have l: "length (flat_root three_tx_nodes) = 14"
    by (simp add: flat_root_def three_tx_nodes_def rlp_byteslices_def rlp_list_def
        rlp_string_def rlp_prefix_def)
  have ne: "flat_root three_tx_nodes \<noteq> TxHash sample_header"
  proof
    assume "flat_root three_tx_nodes = TxHash sample_header"
    then have "length (flat_root three_tx_nodes) = length (TxHash sample_header)" by simp
    then show False using l by (simp add: h)
  qed
  have v: "flat_verify (TxHash sample_header) [0x01] three_tx_nodes = None"
    using ne by (simp add: flat_verify_def)
  have ne2: "TxHash sample_header \<noteq> TxHash consistent_header"
    using ne by (simp add: consistent_header_def)
  have a: "\<forall>lib. \<exists>v p pn.
      GenerateMerkleProofForTx lib (three_tx_client sample_header) [10] 1
        = Inr (rlp_Header sample_header, v, p, pn) \<and>
      GenerateMerkleProofForTx lib (three_tx_client consistent_header) [10] 1
        = Inr (rlp_Header consistent_header, v, p, pn) \<and>
      TxHash sample_header \<noteq> TxHash consistent_header"
    using ne2 by (simp add: three_tx_builder)
  from g h ne v a show ?thesis by blast
qed

end
